theory Spec2Isabelle
  imports Complex_Main "HOL-Library.Stream"
begin

section \<open>Data model of \<^verbatim>\<open>main.py\<close>\<close>

text \<open>
  Python's unbounded integers are \<open>int\<close>. A dictionary \<^verbatim>\<open>dict[int, int]\<close> is a map
  \<open>int \<rightharpoonup> int\<close>. The coordinates of a Location are reals: a real stands for a finite
  double, and arithmetic on the coordinates is exact here. The rounding of IEEE-754
  doubles, their infinities and NaN and the exceptions that arithmetic on them raises
  have no counterpart in this file.

  The exceptions are values of \<open>error\<close>: \<^verbatim>\<open>KeyError\<close> and \<^verbatim>\<open>IndexError\<close> of the code,
  and \<open>IllegalStateException\<close>, with which the scoring library rejects a negative match
  weight. \<open>OutsideModel\<close> is no exception: it marks an input on which the model of the
  library says nothing.
\<close>

datatype error = KeyError | IndexError | IllegalStateException | OutsideModel

text \<open>
  \<^verbatim>\<open>class Location\<close>: the field \<^verbatim>\<open>id\<close> is \<open>id_loc\<close> here (\<open>id\<close> is the identity
  function of HOL).
\<close>

record location =
  id_loc :: int
  latitude :: real
  longitude :: real
  distance_dict :: "int \<rightharpoonup> int"

text \<open>\<^verbatim>\<open>class Vehicle\<close>: the list variable \<^verbatim>\<open>visits\<close> defaults to the empty list.\<close>

record vehicle =
  start_location :: location
  visits :: "location list"

text \<open>\<^verbatim>\<open>class RoutingPlan\<close>: \<^verbatim>\<open>score\<close> defaults to \<^verbatim>\<open>None\<close>.\<close>

record routing_plan =
  vehicles :: "vehicle list"
  visits :: "location list"
  score :: "int option"

subsection \<open>\<^verbatim>\<open>Location.distance_to\<close>\<close>

text \<open>
  The builtin \<^verbatim>\<open>round\<close> with one argument returns an integer and rounds a tie to the
  even neighbour (\<^verbatim>\<open>round(12.5) == 12\<close>, \<^verbatim>\<open>round(13.5) == 14\<close>).
\<close>

definition py_round :: "real \<Rightarrow> int" where
  "py_round x =
     (let f = \<lfloor>x\<rfloor>; r = x - of_int f
      in if r < 1 / 2 then f
         else if 1 / 2 < r then f + 1
         else if even f then f else f + 1)"

text \<open>
  \<^verbatim>\<open>round(((self.latitude - other.latitude)**2
            + (self.longitude - other.longitude)**2)**0.5 * 100)\<close>
  in exact arithmetic. The program calls \<^verbatim>\<open>distance_to\<close> on the Locations that
  \<open>generate_problem\<close> builds only, whose coordinates are integers from 0 to 100: there
  the differences, the squares and their sum are integers that doubles hold exactly.
  The theorems of this file use \<open>distance_to\<close> on such Locations, and beyond them for
  the symmetry of its two arguments only. On other coordinates the value that the code
  computes in doubles can differ from this one, and the code can raise where this
  function returns a value.
\<close>

definition distance_to :: "location \<Rightarrow> location \<Rightarrow> int" where
  "distance_to self other =
     py_round (((latitude self - latitude other)\<^sup>2
                + (longitude self - longitude other)\<^sup>2) powr 0.5 * 100)"

subsection \<open>\<^verbatim>\<open>Vehicle.total_distance\<close>\<close>

text \<open>\<^verbatim>\<open>d[k]\<close> on a dictionary raises \<^verbatim>\<open>KeyError\<close> when the key is absent.\<close>

definition getitem :: "(int \<rightharpoonup> int) \<Rightarrow> int \<Rightarrow> error + int" where
  "getitem d k = (case d k of None \<Rightarrow> Inl KeyError | Some v \<Rightarrow> Inr v)"

text \<open>
  The \<^verbatim>\<open>for visit in self.visits\<close> loop, with its two variables \<^verbatim>\<open>previous\<close> and
  \<^verbatim>\<open>total\<close> as the state.
\<close>

fun visit_loop :: "location \<Rightarrow> int \<Rightarrow> location list \<Rightarrow> error + location \<times> int" where
  "visit_loop previous tot [] = Inr (previous, tot)"
| "visit_loop previous tot (visit # rest) =
     (case getitem (distance_dict previous) (id_loc visit) of
        Inl e \<Rightarrow> Inl e
      | Inr d \<Rightarrow> visit_loop visit (tot + d) rest)"

definition total_distance :: "vehicle \<Rightarrow> error + int" where
  "total_distance self =
     (case visit_loop (start_location self) 0 (vehicle.visits self) of
        Inl e \<Rightarrow> Inl e
      | Inr (previous, tot) \<Rightarrow>
          (case getitem (distance_dict previous) (id_loc (start_location self)) of
             Inl e \<Rightarrow> Inl e
           | Inr d \<Rightarrow> Inr (tot + d)))"

subsection \<open>\<^verbatim>\<open>vrp_constraints\<close> and the score of a plan\<close>

text \<open>
  The scores of the library are signed 64-bit integers: a sum that leaves their range
  wraps around.
\<close>

definition wrap64 :: "int \<Rightarrow> int" where
  "wrap64 x = (x + 2 ^ 63) mod 2 ^ 64 - 2 ^ 63"

text \<open>
  \<^verbatim>\<open>cf.for_each(Vehicle).penalize(SimpleScore.ONE, lambda vehicle: vehicle.total_distance())\<close>:
  every vehicle of the plan is matched once, and its match weight is what
  \<^verbatim>\<open>total_distance\<close> returns; an exception that \<^verbatim>\<open>total_distance\<close> raises ends the
  scoring. The library, which is not in the sources, rejects a negative match weight
  with an exception, and subtracts the constraint weight (one) times the match weight
  from the 64-bit score. What the library does with a match weight of \<open>2 ^ 63\<close> or more
  is not known from the sources: there the model stops with \<open>OutsideModel\<close>.
\<close>

fun penalize :: "vehicle list \<Rightarrow> int \<Rightarrow> error + int" where
  "penalize [] acc = Inr acc"
| "penalize (v # rest) acc =
     (case total_distance v of
        Inl e \<Rightarrow> Inl e
      | Inr d \<Rightarrow>
          if d < 0 then Inl IllegalStateException
          else if 2 ^ 63 \<le> d then Inl OutsideModel
          else penalize rest (wrap64 (acc - 1 * d)))"

definition vrp_constraints :: "vehicle list \<Rightarrow> error + int" where
  "vrp_constraints vs = penalize vs 0"

text \<open>The score that the single constraint of \<^verbatim>\<open>vrp_constraints\<close> gives a plan.\<close>

definition plan_score :: "routing_plan \<Rightarrow> error + int" where
  "plan_score solution = vrp_constraints (vehicles solution)"

subsection \<open>\<^verbatim>\<open>generate_problem\<close>\<close>

text \<open>
  The generator \<^verbatim>\<open>Random(0)\<close> is the standard library's. It is a parameter of the
  model: the stream of raw draws it yields. \<^verbatim>\<open>randint(a, b)\<close> (called with \<open>a \<le> b\<close>
  only) takes one draw and returns an integer of \<open>[a, b]\<close>; \<^verbatim>\<open>choice(seq)\<close> raises
  \<^verbatim>\<open>IndexError\<close> on an empty sequence and returns one of its elements otherwise.
\<close>

definition randint :: "int \<Rightarrow> int \<Rightarrow> nat stream \<Rightarrow> int \<times> nat stream" where
  "randint a b random = (a + int (shd random mod nat (b - a + 1)), stl random)"

definition choice :: "'a list \<Rightarrow> nat stream \<Rightarrow> error + 'a \<times> nat stream" where
  "choice seq random =
     (if seq = [] then Inl IndexError
      else Inr (seq ! (shd random mod length seq), stl random))"

text \<open>\<^verbatim>\<open>range(n)\<close>, and \<^verbatim>\<open>seq[i]\<close> on a list (a negative index counts from the end).\<close>

definition range_py :: "nat \<Rightarrow> int list" where
  "range_py n = map int [0..<n]"

definition getitem_list :: "'a list \<Rightarrow> int \<Rightarrow> error + 'a" where
  "getitem_list seq i =
     (if 0 \<le> i \<and> i < int (length seq) then Inr (seq ! nat i)
      else if i < 0 \<and> - int (length seq) \<le> i then Inr (seq ! nat (int (length seq) + i))
      else Inl IndexError)"

text \<open>
  The list comprehension of lines 62 to 65: the latitude is drawn before the longitude,
  and every Location starts with the empty dictionary.
\<close>

fun make_locations :: "int list \<Rightarrow> nat stream \<Rightarrow> location list \<times> nat stream" where
  "make_locations [] random = ([], random)"
| "make_locations (i # rest) random =
     (let (lat, random1) = randint 0 100 random;
          (lon, random2) = randint 0 100 random1;
          (locations, random3) = make_locations rest random2
      in (\<lparr>id_loc = i, latitude = of_int lat, longitude = of_int lon,
            distance_dict = Map.empty\<rparr> # locations, random3))"

text \<open>
  The nested loops of lines 66 to 69 mutate the dictionaries of the Location objects that
  the list \<^verbatim>\<open>locations\<close> holds. The list is the store here: the object at position \<open>k\<close>
  is \<^verbatim>\<open>location\<close>, and \<^verbatim>\<open>other = locations[i]\<close> reads the list as it is at that moment.
\<close>

fun inner_loop :: "nat \<Rightarrow> int list \<Rightarrow> location list \<Rightarrow> error + location list" where
  "inner_loop k [] locations = Inr locations"
| "inner_loop k (i # rest) locations =
     (case getitem_list locations i of
        Inl e \<Rightarrow> Inl e
      | Inr other \<Rightarrow>
          (let location = locations ! k
           in inner_loop k rest
                (locations[k := location\<lparr>distance_dict :=
                   (distance_dict location)(i \<mapsto> distance_to location other)\<rparr>])))"

fun outer_loop :: "nat list \<Rightarrow> nat \<Rightarrow> location list \<Rightarrow> error + location list" where
  "outer_loop [] location_count locations = Inr locations"
| "outer_loop (k # rest) location_count locations =
     (case inner_loop k (range_py location_count) locations of
        Inl e \<Rightarrow> Inl e
      | Inr locations' \<Rightarrow> outer_loop rest location_count locations')"

text \<open>The list comprehension of lines 71 to 74: one \<^verbatim>\<open>random.choice\<close> per vehicle.\<close>

fun make_vehicles ::
  "int list \<Rightarrow> location list \<Rightarrow> nat stream \<Rightarrow> error + vehicle list \<times> nat stream" where
  "make_vehicles [] locations random = Inr ([], random)"
| "make_vehicles (i # rest) locations random =
     (case choice locations random of
        Inl e \<Rightarrow> Inl e
      | Inr (start, random1) \<Rightarrow>
          (case make_vehicles rest locations random1 of
             Inl e \<Rightarrow> Inl e
           | Inr (vs, random2) \<Rightarrow>
               Inr (\<lparr>start_location = start, visits = []\<rparr> # vs, random2)))"

text \<open>
  The constructor of the dataclass \<^verbatim>\<open>RoutingPlan\<close>: it stores its arguments and checks
  nothing. Its result is a sum so that a claim about a failing construction can be stated.
\<close>

definition RoutingPlan :: "vehicle list \<Rightarrow> location list \<Rightarrow> error + routing_plan" where
  "RoutingPlan vs locations = Inr \<lparr>vehicles = vs, visits = locations, score = None\<rparr>"

text \<open>
  The body of \<^verbatim>\<open>generate_problem\<close> with its two local constants as parameters, and
  \<^verbatim>\<open>generate_problem\<close> itself, where they are 100 and 4.
\<close>

definition generate_problem_with :: "nat stream \<Rightarrow> nat \<Rightarrow> nat \<Rightarrow> error + routing_plan" where
  "generate_problem_with random location_count vehicle_count =
     (let (locations0, random1) = make_locations (range_py location_count) random
      in case outer_loop [0..<length locations0] location_count locations0 of
           Inl e \<Rightarrow> Inl e
         | Inr locations \<Rightarrow>
             (case make_vehicles (range_py vehicle_count) locations random1 of
                Inl e \<Rightarrow> Inl e
              | Inr (vs, random2) \<Rightarrow> RoutingPlan vs locations))"

definition generate_problem :: "nat stream \<Rightarrow> error + routing_plan" where
  "generate_problem random = generate_problem_with random 100 4"

section \<open>The score as the specification words it\<close>

text \<open>
  The route of a vehicle leaves its start Location, passes its visits in list order and
  returns to the start. The cost of an edge is looked up in the distance mapping of the
  Location the edge leaves, under the id of the Location it reaches. \<open>None\<close> stands for
  a lookup that finds no entry.
\<close>

definition route :: "vehicle \<Rightarrow> location list" where
  "route v = start_location v # vehicle.visits v @ [start_location v]"

definition edge_cost :: "location \<times> location \<Rightarrow> int option" where
  "edge_cost e = distance_dict (fst e) (id_loc (snd e))"

definition route_cost :: "vehicle \<Rightarrow> int option" where
  "route_cost v =
     map_option sum_list (those (map edge_cost (zip (route v) (tl (route v)))))"

definition negated_sum :: "routing_plan \<Rightarrow> int option" where
  "negated_sum s =
     map_option (\<lambda>cs. - sum_list cs) (those (map route_cost (vehicles s)))"

definition raise_if_none :: "int option \<Rightarrow> error + int" where
  "raise_if_none r = (case r of None \<Rightarrow> Inl KeyError | Some x \<Rightarrow> Inr x)"

text \<open>
  Modelled from the spec: the summation of \<^verbatim>\<open>full_score\<close> (section 4.2), which is not
  in the sources. It subtracts, for every Vehicle in turn, the travel cost of its route,
  which is what \<open>total_distance\<close> of the code returns; the Score of section 3 is a
  signed integer for which the specification states no bound.
\<close>

fun subtract_distances :: "vehicle list \<Rightarrow> int \<Rightarrow> error + int" where
  "subtract_distances [] acc = Inr acc"
| "subtract_distances (v # rest) acc =
     (case total_distance v of
        Inl e \<Rightarrow> Inl e
      | Inr d \<Rightarrow> subtract_distances rest (acc - d))"

text \<open>
  Modelled from the spec: \<^verbatim>\<open>full_score\<close> of section 4.2, the contract of the Score
  Calculator, which is not in the sources: the negated sum of the travel costs of the
  Vehicles of a Solution.
\<close>

definition full_score :: "routing_plan \<Rightarrow> error + int" where
  "full_score solution = subtract_distances (vehicles solution) 0"

text \<open>
  The distance of the specification: the Euclidean distance of the two coordinates,
  times 100, rounded.
\<close>

definition euclidean_distance :: "location \<Rightarrow> location \<Rightarrow> real" where
  "euclidean_distance a b =
     sqrt ((latitude a - latitude b)\<^sup>2 + (longitude a - longitude b)\<^sup>2)"

definition cost :: "location \<Rightarrow> location \<Rightarrow> int" where
  "cost a b = py_round (euclidean_distance a b * 100)"

section \<open>Predicates and example data\<close>

text \<open>
  The part of a Location that \<open>distance_to\<close> reads and that nothing mutates after
  construction: its id and its two coordinates.
\<close>

definition place :: "location \<Rightarrow> int \<times> real \<times> real" where
  "place l = (id_loc l, latitude l, longitude l)"

text \<open>Every value stored in the distance mapping of a Location is nonnegative.\<close>

definition nonneg_costs :: "location \<Rightarrow> bool" where
  "nonneg_costs l \<longleftrightarrow> (\<forall>d\<in>ran (distance_dict l). 0 \<le> d)"

text \<open>
  A Location whose coordinates are integers from 0 to 100, as \<^verbatim>\<open>randint(0, 100)\<close> draws
  them on line 63.
\<close>

definition on_grid :: "location \<Rightarrow> bool" where
  "on_grid l \<longleftrightarrow>
     latitude l \<in> of_int ` {0..100} \<and> longitude l \<in> of_int ` {0..100}"

text \<open>
  The match weight of a vehicle, when \<open>total_distance\<close> returns one, is nonnegative and
  fits the signed 64-bit weights of the library.
\<close>

definition weight_in_range :: "vehicle \<Rightarrow> bool" where
  "weight_in_range v \<longleftrightarrow>
     (case total_distance v of Inl e \<Rightarrow> True | Inr d \<Rightarrow> 0 \<le> d \<and> d < 2 ^ 63)"

text \<open>
  The negated sum of the route costs of a plan, when every lookup succeeds, is not below
  the least signed 64-bit integer.
\<close>

definition sum_in_range :: "routing_plan \<Rightarrow> bool" where
  "sum_in_range s \<longleftrightarrow> (case negated_sum s of None \<Rightarrow> True | Some x \<Rightarrow> - (2 ^ 63) \<le> x)"

text \<open>
  A vehicle without visits whose start Location maps its own id to the cost 0, as the
  Locations that \<open>generate_problem\<close> builds do.
\<close>

definition at_rest :: "vehicle \<Rightarrow> bool" where
  "at_rest v \<longleftrightarrow>
     vehicle.visits v = [] \<and>
     distance_dict (start_location v) (id_loc (start_location v)) = Some 0"

text \<open>
  Two Locations one unit apart with their filled mappings, the plan of one vehicle that
  starts at the first and visits the second (cost 100 each way), and a plan of three
  vehicles without visits.
\<close>

definition loc_a :: location where
  "loc_a = \<lparr>id_loc = 0, latitude = 0, longitude = 0,
            distance_dict = [0 \<mapsto> 0, 1 \<mapsto> 100]\<rparr>"

definition loc_b :: location where
  "loc_b = \<lparr>id_loc = 1, latitude = 0, longitude = 1,
            distance_dict = [0 \<mapsto> 100, 1 \<mapsto> 0]\<rparr>"

definition scenario_b :: routing_plan where
  "scenario_b =
     \<lparr>vehicles = [\<lparr>start_location = loc_a, visits = [loc_b]\<rparr>],
      visits = [loc_a, loc_b], score = None\<rparr>"

definition scenario_c :: routing_plan where
  "scenario_c =
     \<lparr>vehicles = replicate 3 \<lparr>start_location = loc_a, visits = []\<rparr>,
      visits = [], score = None\<rparr>"

text \<open>
  \<^verbatim>\<open>Location(0, 0, 0, {})\<close>: a Location as line 63 constructs it, before the loops of
  lines 66 to 69 have filled its mapping.
\<close>

definition unfilled :: location where
  "unfilled = \<lparr>id_loc = 0, latitude = 0, longitude = 0, distance_dict = Map.empty\<rparr>"

text \<open>
  \<^verbatim>\<open>Vehicle(Location(0, 0, 0, {0: -5}))\<close>: a vehicle without visits whose start Location
  stores a negative cost under its own id, and the plan of this one vehicle.
\<close>

definition indebted :: vehicle where
  "indebted = \<lparr>start_location = unfilled\<lparr>distance_dict := [0 \<mapsto> - 5]\<rparr>, visits = []\<rparr>"

definition indebted_plan :: routing_plan where
  "indebted_plan = \<lparr>vehicles = [indebted], visits = [], score = None\<rparr>"

text \<open>
  \<^verbatim>\<open>Vehicle(Location(0, 0, 0, {0: 2**62}))\<close>: a vehicle without visits whose start
  Location stores the cost \<open>2 ^ 62\<close> under its own id, and the plan of three such
  vehicles.
\<close>

definition heavy :: vehicle where
  "heavy = \<lparr>start_location = unfilled\<lparr>distance_dict := [0 \<mapsto> 2 ^ 62]\<rparr>, visits = []\<rparr>"

definition heavy_plan :: routing_plan where
  "heavy_plan = \<lparr>vehicles = [heavy, heavy, heavy], visits = [], score = None\<rparr>"

section \<open>The moves of the solving engine\<close>

text \<open>
  The solver that \<^verbatim>\<open>main.py\<close> calls is a library; its moves, their application and the
  incremental score are not in the sources. The definitions of this section follow the
  specification, on top of \<open>total_distance\<close> of the code and of \<open>full_score\<close>, the
  score contract of the specification. A vehicle is
  named by its position in the vehicle list of the plan, a visit by its position in the
  visit list of its vehicle.
\<close>

text \<open>
  Modelled from the spec: the Move of sections 3 and 4.3, which is not in the sources.
  \<open>Relocate sv sp tv tp\<close> removes the visit at position \<open>sp\<close> of vehicle \<open>sv\<close> and
  reinserts it at position \<open>tp\<close> of vehicle \<open>tv\<close> (a position of the list after the
  removal when the two vehicles are the same); \<open>Swap v1 p1 v2 p2\<close> exchanges the visits
  at the two places; \<open>SegmentReverse v i j\<close> reverses the visits of vehicle \<open>v\<close> from
  position \<open>i\<close> to position \<open>j\<close>, both included.
\<close>

datatype move =
    Relocate nat nat nat nat
  | Swap nat nat nat nat
  | SegmentReverse nat nat nat

text \<open>
  Modelled from the spec: the failures of the engine of section 7, which is not in the
  sources. A move out of range is a fatal violation of an internal invariant; \<open>Raised\<close>
  carries an exception of the scoring code.
\<close>

datatype failure = InvariantViolation | Raised error

text \<open>
  Modelled from the spec: the legal moves of sections 4.3 and 7, which are not in the
  sources. A legal move names vehicles and positions that exist, and its source and
  target differ.
\<close>

fun legal :: "routing_plan \<Rightarrow> move \<Rightarrow> bool" where
  "legal s (Relocate sv sp tv tp) \<longleftrightarrow>
     sv < length (vehicles s) \<and> tv < length (vehicles s) \<and>
     sp < length (vehicle.visits (vehicles s ! sv)) \<and>
     (if tv = sv then tp < length (vehicle.visits (vehicles s ! sv)) \<and> tp \<noteq> sp
      else tp \<le> length (vehicle.visits (vehicles s ! tv)))"
| "legal s (Swap v1 p1 v2 p2) \<longleftrightarrow>
     v1 < length (vehicles s) \<and> v2 < length (vehicles s) \<and>
     p1 < length (vehicle.visits (vehicles s ! v1)) \<and>
     p2 < length (vehicle.visits (vehicles s ! v2)) \<and>
     (v1, p1) \<noteq> (v2, p2)"
| "legal s (SegmentReverse v i j) \<longleftrightarrow>
     v < length (vehicles s) \<and> i < j \<and> j < length (vehicle.visits (vehicles s ! v))"

text \<open>
  Modelled from the spec: the removal of the visit at a position, the first half of a
  Relocate move (section 4.3); not in the sources.
\<close>

definition remove_at :: "nat \<Rightarrow> 'a list \<Rightarrow> 'a list" where
  "remove_at p xs = take p xs @ drop (Suc p) xs"

text \<open>
  Modelled from the spec: the reinsertion of a visit at a position, the second half of a
  Relocate move (section 4.3); not in the sources.
\<close>

definition insert_at :: "nat \<Rightarrow> 'a \<Rightarrow> 'a list \<Rightarrow> 'a list" where
  "insert_at p x xs = take p xs @ x # drop p xs"

text \<open>
  Modelled from the spec: the vehicles that a move affects (at most two) with their visit
  sequences after the move, computed from the plan without changing it (sections 3, 4.2
  and 4.3); not in the sources.
\<close>

fun moved_routes :: "vehicle list \<Rightarrow> move \<Rightarrow> (nat \<times> location list) list" where
  "moved_routes vs (Relocate sv sp tv tp) =
     (let source = vehicle.visits (vs ! sv); visit = source ! sp
      in if tv = sv then [(sv, insert_at tp visit (remove_at sp source))]
         else [(sv, remove_at sp source),
               (tv, insert_at tp visit (vehicle.visits (vs ! tv)))])"
| "moved_routes vs (Swap v1 p1 v2 p2) =
     (let r1 = vehicle.visits (vs ! v1); r2 = vehicle.visits (vs ! v2)
      in if v1 = v2 then [(v1, r1[p1 := r1 ! p2, p2 := r1 ! p1])]
         else [(v1, r1[p1 := r2 ! p2]), (v2, r2[p2 := r1 ! p1])])"
| "moved_routes vs (SegmentReverse v i j) =
     (let r = vehicle.visits (vs ! v)
      in [(v, take i r @ rev (take (Suc j - i) (drop i r)) @ drop (Suc j) r)])"

text \<open>
  Modelled from the spec: the mutation of one vehicle by a move (section 3: a Vehicle is
  mutated by Move application only), which is not in the sources. It replaces the visit
  sequence of the vehicle at the given position.
\<close>

definition reroute :: "vehicle list \<Rightarrow> nat \<times> location list \<Rightarrow> vehicle list" where
  "reroute vs u = vs[fst u := (vs ! fst u)\<lparr>vehicle.visits := snd u\<rparr>]"

text \<open>
  Modelled from the spec: the application of a move (sections 4.3, 4.5 and 7), which is
  not in the sources. It replaces the visit sequences of the affected vehicles; a move
  that is not legal is the fatal invariant violation. The score field is left as it is:
  the engine adds the delta to it in a step of its own.
\<close>

definition apply_move :: "routing_plan \<Rightarrow> move \<Rightarrow> failure + routing_plan" where
  "apply_move s m =
     (if legal s m
      then Inr (s\<lparr>vehicles := fold (\<lambda>u vs. reroute vs u) (moved_routes (vehicles s) m)
                                (vehicles s)\<rparr>)
      else Inl InvariantViolation)"

text \<open>
  Modelled from the spec: the re-summing of one affected route (section 4.2), which is
  not in the sources: the distance of the vehicle with its new visits minus its distance
  with the old ones, both computed by \<open>total_distance\<close> of the code.
\<close>

definition resum :: "vehicle list \<Rightarrow> nat \<times> location list \<Rightarrow> error + int" where
  "resum vs u =
     (case total_distance (vs ! fst u) of
        Inl e \<Rightarrow> Inl e
      | Inr before \<Rightarrow>
          (case total_distance ((vs ! fst u)\<lparr>vehicle.visits := snd u\<rparr>) of
             Inl e \<Rightarrow> Inl e
           | Inr after \<Rightarrow> Inr (after - before)))"

text \<open>
  Modelled from the spec: the change of distance summed over the affected routes (section
  4.2: at most two vehicles); not in the sources.
\<close>

fun delta_sum :: "vehicle list \<Rightarrow> (nat \<times> location list) list \<Rightarrow> error + int" where
  "delta_sum vs [] = Inr 0"
| "delta_sum vs (u # rest) =
     (case resum vs u of
        Inl e \<Rightarrow> Inl e
      | Inr d \<Rightarrow> (case delta_sum vs rest of Inl e \<Rightarrow> Inl e | Inr r \<Rightarrow> Inr (d + r)))"

text \<open>
  Modelled from the spec: \<^verbatim>\<open>delta_score\<close> of section 4.2, which is not in the sources.
  It re-sums the routes of the vehicles that the move affects, and nothing else; the
  score is the negated distance, so the delta is the negated change of distance. A move
  that is not legal is the fatal invariant violation.
\<close>

definition delta_score :: "routing_plan \<Rightarrow> move \<Rightarrow> failure + int" where
  "delta_score s m =
     (if legal s m
      then (case delta_sum (vehicles s) (moved_routes (vehicles s) m) of
              Inl e \<Rightarrow> Inl (Raised e)
            | Inr d \<Rightarrow> Inr (- d))
      else Inl InvariantViolation)"

text \<open>
  Modelled from the spec: the Locations that the routes of a Solution pass (section 3),
  starts and visits; the engine that owns the Solution is not in the sources.
\<close>

definition locations_of :: "routing_plan \<Rightarrow> location list" where
  "locations_of s = concat (map route (vehicles s))"

text \<open>
  Modelled from the spec: the Distance Index of section 4.1, which is not in the sources,
  holds a cost for every ordered pair of Locations. Here: every Location on a route of
  the plan has an entry under the id of every Location on a route of the plan.
\<close>

definition complete_index :: "routing_plan \<Rightarrow> bool" where
  "complete_index s \<longleftrightarrow>
     (\<forall>a\<in>set (locations_of s). \<forall>b\<in>set (locations_of s).
        distance_dict a (id_loc b) \<noteq> None)"

text \<open>The cost of a route whose lookups all succeed.\<close>

definition cost_of :: "vehicle \<Rightarrow> int" where
  "cost_of v = the (route_cost v)"

text \<open>
  A plan of two vehicles: the first starts at \<open>loc_a\<close> and visits \<open>loc_b\<close>, the second
  starts at \<open>loc_b\<close> and has no visit.
\<close>

definition scenario_two :: routing_plan where
  "scenario_two =
     \<lparr>vehicles = [\<lparr>start_location = loc_a, visits = [loc_b]\<rparr>,
                  \<lparr>start_location = loc_b, visits = []\<rparr>],
      visits = [loc_a, loc_b], score = None\<rparr>"

section \<open>The route of a vehicle and the score\<close>

lemma those_snoc:
  "those (xs @ [x]) =
     (case those xs of
        None \<Rightarrow> None
      | Some ys \<Rightarrow> (case x of None \<Rightarrow> None | Some y \<Rightarrow> Some (ys @ [y])))"
  by (induction xs) (auto split: option.splits)

lemma zip_route:
  "zip (p # vs @ [s]) (vs @ [s]) = zip (p # vs) vs @ [(last (p # vs), s)]"
  by (induction vs arbitrary: p) auto

lemma visit_loop_those:
  "visit_loop p t vs =
     (case those (map edge_cost (zip (p # vs) vs)) of
        None \<Rightarrow> Inl KeyError
      | Some cs \<Rightarrow> Inr (last (p # vs), t + sum_list cs))"
proof (induction vs arbitrary: p t)
  case Nil
  show ?case by simp
next
  case (Cons v vs)
  show ?case
    by (cases "distance_dict p (id_loc v)")
       (simp_all add: getitem_def edge_cost_def Cons.IH split: option.splits)
qed

lemma total_distance_route_cost: "total_distance v = raise_if_none (route_cost v)"
  unfolding total_distance_def route_cost_def route_def raise_if_none_def
  by (simp add: visit_loop_those zip_route those_snoc getitem_def edge_cost_def
      split: option.splits)

lemma subtract_distances_those:
  "subtract_distances vs sc =
     (case those (map route_cost vs) of
        None \<Rightarrow> Inl KeyError
      | Some cs \<Rightarrow> Inr (sc - sum_list cs))"
proof (induction vs arbitrary: sc)
  case Nil
  show ?case by simp
next
  case (Cons v vs)
  show ?case
    by (cases "route_cost v")
       (simp_all add: total_distance_route_cost raise_if_none_def Cons.IH
          split: option.splits)
qed

text \<open>
  The score contract of the specification is the negated sum of the route costs, and
  raises \<^verbatim>\<open>KeyError\<close> when a lookup on a route finds no entry.
\<close>

lemma full_score_eq_negated_sum: "full_score s = raise_if_none (negated_sum s)"
  unfolding full_score_def negated_sum_def raise_if_none_def
  by (simp add: subtract_distances_those split: option.splits)

lemma those_map_Some_iff:
  "those (map f xs) = Some ys \<longleftrightarrow>
     (\<forall>x\<in>set xs. f x \<noteq> None) \<and> ys = map (\<lambda>x. the (f x)) xs"
  by (induction xs arbitrary: ys) (auto split: option.splits)

lemma set_zip_tl: "set (zip xs (tl xs)) \<subseteq> set xs \<times> set xs"
proof -
  have "set (tl xs) \<subseteq> set xs" by (cases xs) auto
  then show ?thesis by (auto dest: set_zip_leftD set_zip_rightD)
qed

lemma route_cost_Some_iff:
  "route_cost v = Some c \<longleftrightarrow>
     (\<forall>e\<in>set (zip (route v) (tl (route v))). edge_cost e \<noteq> None) \<and>
     c = sum_list (map (\<lambda>e. the (edge_cost e)) (zip (route v) (tl (route v))))"
  by (auto simp: route_cost_def those_map_Some_iff)

lemma route_cost_defined:
  assumes "set (route v) \<subseteq> L"
    and "\<forall>a\<in>L. \<forall>b\<in>L. distance_dict a (id_loc b) \<noteq> None"
  shows "\<exists>c. route_cost v = Some c"
proof -
  have "edge_cost e \<noteq> None" if "e \<in> set (zip (route v) (tl (route v)))" for e
  proof -
    from that set_zip_tl have "fst e \<in> set (route v)" "snd e \<in> set (route v)"
      by fastforce+
    then have "fst e \<in> L" "snd e \<in> L" using assms(1) by auto
    then show ?thesis using assms(2) by (simp add: edge_cost_def)
  qed
  then show ?thesis by (simp add: route_cost_Some_iff)
qed

lemma route_cost_nonneg:
  assumes "route_cost v = Some c" and "list_all nonneg_costs (route v)"
  shows "0 \<le> c"
proof -
  have "0 \<le> the (edge_cost e)" if e: "e \<in> set (zip (route v) (tl (route v)))" for e
  proof -
    from e set_zip_tl have "fst e \<in> set (route v)" by fastforce
    then have nn: "nonneg_costs (fst e)" using assms(2) by (simp add: list_all_iff)
    from assms(1) e obtain d where "edge_cost e = Some d"
      by (auto simp: route_cost_Some_iff)
    then show ?thesis using nn by (auto simp: edge_cost_def nonneg_costs_def ran_def)
  qed
  then have "0 \<le> sum_list (map (\<lambda>e. the (edge_cost e)) (zip (route v) (tl (route v))))"
    by (intro sum_list_nonneg) auto
  then show ?thesis using assms(1) by (simp add: route_cost_Some_iff)
qed

lemma total_distance_Inr_iff: "total_distance v = Inr d \<longleftrightarrow> route_cost v = Some d"
  by (simp add: total_distance_route_cost raise_if_none_def split: option.splits)

lemma full_score_Inr_iff:
  "full_score s = Inr x \<longleftrightarrow>
     (\<forall>v\<in>set (vehicles s). route_cost v \<noteq> None) \<and>
     x = - sum_list (map (\<lambda>v. the (route_cost v)) (vehicles s))"
proof (cases "those (map route_cost (vehicles s))")
  case None
  then have "\<not> (\<forall>v\<in>set (vehicles s). route_cost v \<noteq> None)"
    using those_map_Some_iff [of route_cost "vehicles s"] by auto
  then show ?thesis
    using None by (auto simp: full_score_def subtract_distances_those)
next
  case (Some cs)
  then show ?thesis
    using those_map_Some_iff [of route_cost "vehicles s" cs]
    by (auto simp: full_score_def subtract_distances_those)
qed

lemma at_rest_total_distance: "at_rest v \<Longrightarrow> total_distance v = Inr 0"
  by (simp add: at_rest_def total_distance_def getitem_def)

lemma at_rest_subtract: "list_all at_rest vs \<Longrightarrow> subtract_distances vs acc = Inr acc"
  by (induction vs arbitrary: acc) (simp_all add: at_rest_total_distance)

lemma at_rest_full_score: "list_all at_rest (vehicles s) \<Longrightarrow> full_score s = Inr 0"
  by (simp add: full_score_def at_rest_subtract)

section \<open>The score of the library\<close>

lemma wrap64_id: "- (2 ^ 63) \<le> x \<Longrightarrow> x < 2 ^ 63 \<Longrightarrow> wrap64 x = x"
  by (simp add: wrap64_def)

lemma wrap64_diff: "wrap64 (wrap64 a - d) = wrap64 (a - d)"
proof -
  have "(wrap64 a - d + 2 ^ 63) mod 2 ^ 64 = ((a + 2 ^ 63) mod 2 ^ 64 - d) mod 2 ^ 64"
    by (simp add: wrap64_def)
  also have "\<dots> = (a + 2 ^ 63 - d) mod 2 ^ 64"
    by (simp add: mod_diff_left_eq)
  also have "\<dots> = (a - d + 2 ^ 63) mod 2 ^ 64"
    by (simp add: algebra_simps)
  finally show ?thesis by (simp add: wrap64_def)
qed

lemma at_rest_penalize: "list_all at_rest vs \<Longrightarrow> penalize vs 0 = Inr 0"
  by (induction vs) (simp_all add: at_rest_total_distance wrap64_def)

lemma at_rest_plan_score: "list_all at_rest (vehicles s) \<Longrightarrow> plan_score s = Inr 0"
  by (simp add: plan_score_def vrp_constraints_def at_rest_penalize)

text \<open>
  With match weights in range, the loop of the penalty returns the accumulator minus the
  sum of the route costs, wrapped to 64 bits, or raises \<^verbatim>\<open>KeyError\<close>.
\<close>

lemma penalize_those:
  assumes "list_all weight_in_range vs" and "vs \<noteq> []"
  shows "penalize vs acc =
     (case those (map route_cost vs) of
        None \<Rightarrow> Inl KeyError
      | Some cs \<Rightarrow> Inr (wrap64 (acc - sum_list cs)))"
  using assms
proof (induction vs arbitrary: acc)
  case Nil
  then show ?case by simp
next
  case (Cons v vs)
  show ?case
  proof (cases "route_cost v")
    case None
    then show ?thesis
      by (simp add: total_distance_route_cost raise_if_none_def)
  next
    case (Some c)
    then have t: "total_distance v = Inr c"
      by (simp add: total_distance_route_cost raise_if_none_def)
    with Cons.prems(1) have c: "0 \<le> c" "c < 2 ^ 63"
      by (simp_all add: weight_in_range_def)
    have step: "penalize (v # vs) acc = penalize vs (wrap64 (acc - c))"
      using t c by simp
    show ?thesis
    proof (cases "vs = []")
      case True
      then show ?thesis using step Some by simp
    next
      case False
      have "list_all weight_in_range vs" using Cons.prems(1) by simp
      from Cons.IH [OF this False, of "wrap64 (acc - c)"] show ?thesis
        using step Some
        by (simp add: wrap64_diff algebra_simps split: option.splits)
    qed
  qed
qed

lemma plan_score_wrapped:
  assumes "list_all weight_in_range (vehicles s)"
  shows "plan_score s = raise_if_none (map_option wrap64 (negated_sum s))"
proof (cases "vehicles s = []")
  case True
  then show ?thesis
    by (simp add: plan_score_def vrp_constraints_def negated_sum_def raise_if_none_def
        wrap64_def)
next
  case False
  from penalize_those [OF assms False, of 0] show ?thesis
    by (simp add: plan_score_def vrp_constraints_def negated_sum_def raise_if_none_def
        split: option.splits)
qed

lemma negated_sum_nonpos:
  assumes "list_all weight_in_range (vehicles s)" and "negated_sum s = Some x"
  shows "x \<le> 0"
proof -
  from assms(2) obtain cs where cs: "those (map route_cost (vehicles s)) = Some cs"
    "x = - sum_list cs"
    by (auto simp: negated_sum_def)
  then have d: "\<forall>v\<in>set (vehicles s). route_cost v \<noteq> None"
    "cs = map (\<lambda>v. the (route_cost v)) (vehicles s)"
    by (simp_all add: those_map_Some_iff)
  have "0 \<le> the (route_cost v)" if "v \<in> set (vehicles s)" for v
  proof -
    from d(1) that obtain c where c: "route_cost v = Some c" by auto
    then have "total_distance v = Inr c"
      by (simp add: total_distance_route_cost raise_if_none_def)
    moreover have "weight_in_range v" using assms(1) that by (simp add: list_all_iff)
    ultimately show ?thesis using c by (simp add: weight_in_range_def)
  qed
  then have "0 \<le> sum_list cs" unfolding d(2) by (intro sum_list_nonneg) auto
  then show ?thesis using cs(2) by simp
qed

lemma plan_score_exact:
  assumes "list_all weight_in_range (vehicles s)" and "sum_in_range s"
  shows "plan_score s = raise_if_none (negated_sum s)"
proof (cases "negated_sum s")
  case None
  then show ?thesis using plan_score_wrapped [OF assms(1)] by simp
next
  case (Some x)
  have "x \<le> 0" using negated_sum_nonpos [OF assms(1) Some] .
  moreover have "- (2 ^ 63) \<le> x" using assms(2) Some by (simp add: sum_in_range_def)
  ultimately have "wrap64 x = x" by (intro wrap64_id) simp_all
  then show ?thesis using plan_score_wrapped [OF assms(1)] Some by simp
qed

text \<open>
  C1, as stated, fails: the score of the code is not the negated sum for every plan. A
  vehicle whose total distance is -5 makes the scoring raise, where the negated sum is
  5; and three vehicles whose total distance is \<open>2 ^ 62\<close> each get the score \<open>2 ^ 62\<close>,
  where the negated sum is \<open>- (3 * 2 ^ 62)\<close>.
\<close>

theorem plan_score_counterexample:
  "plan_score indebted_plan = Inl IllegalStateException \<and>
   raise_if_none (negated_sum indebted_plan) = Inr 5 \<and>
   plan_score heavy_plan = Inr (2 ^ 62) \<and>
   raise_if_none (negated_sum heavy_plan) = Inr (- (3 * 2 ^ 62))"
  by (simp add: plan_score_def vrp_constraints_def total_distance_def getitem_def
      negated_sum_def route_cost_def route_def edge_cost_def raise_if_none_def wrap64_def
      indebted_plan_def indebted_def heavy_plan_def heavy_def unfilled_def)

text \<open>
  C1, amended. For every plan in which the total distance of every Vehicle is
  nonnegative and below \<open>2 ^ 63\<close>, the full score is the negation of the sum, over the
  Vehicles, of the cost of the route from the start Location through the visits in list
  order and back to the start, every edge cost being looked up in the distance mapping,
  wrapped to a signed 64-bit integer; it is that negation itself when the sum is at most
  \<open>2 ^ 63\<close>; and when one of the lookups finds no entry, the scoring raises
  \<^verbatim>\<open>KeyError\<close>.
\<close>

theorem plan_score_negated_sum:
  "list_all weight_in_range (vehicles s) \<longrightarrow>
     plan_score s = raise_if_none (map_option wrap64 (negated_sum s)) \<and>
     (sum_in_range s \<longrightarrow> plan_score s = raise_if_none (negated_sum s))"
  using plan_score_wrapped [of s] plan_score_exact [of s] by blast

text \<open>Scenario B of the specification: one visit at cost 100 each way scores -200.\<close>

theorem plan_score_scenario_b:
  "list_all weight_in_range (vehicles scenario_b) \<and> sum_in_range scenario_b \<and>
   plan_score scenario_b = Inr (- 200)"
proof -
  have n: "negated_sum scenario_b = Some (- 200)"
    by (simp add: negated_sum_def route_cost_def route_def edge_cost_def scenario_b_def
        loc_a_def loc_b_def)
  have w: "list_all weight_in_range (vehicles scenario_b)"
    by (simp add: weight_in_range_def total_distance_def getitem_def scenario_b_def
        loc_a_def loc_b_def)
  have r: "sum_in_range scenario_b"
    using n by (simp add: sum_in_range_def)
  show ?thesis
    using plan_score_negated_sum [of scenario_b] w r n
    by (simp add: raise_if_none_def wrap64_def)
qed

section \<open>The distance of two Locations\<close>

lemma distance_to_nonneg: "0 \<le> distance_to a b"
  by (auto simp: distance_to_def py_round_def Let_def)

lemma distance_to_self: "distance_to a a = 0"
  by (simp add: distance_to_def py_round_def)

lemma distance_to_place:
  "place a = place a' \<Longrightarrow> place b = place b' \<Longrightarrow> distance_to a b = distance_to a' b'"
  by (simp add: place_def distance_to_def)

lemma place_dict_update [simp]: "place (l\<lparr>distance_dict := d\<rparr>) = place l"
  by (simp add: place_def)

text \<open>
  C3. For every pair of Locations a and b, the cost from a to b is the cost from b to a:
  \<open>distance_to\<close> is symmetric in its two arguments, and so is the distance of the
  specification.
\<close>

theorem distance_to_symmetric: "distance_to a b = distance_to b a \<and> cost a b = cost b a"
  by (simp add: distance_to_def cost_def euclidean_distance_def power2_commute)

section \<open>The plan that \<open>generate_problem\<close> builds\<close>

lemma make_locations_length: "length (fst (make_locations is r)) = length is"
  by (induction "is" arbitrary: r) (simp_all add: split_beta Let_def)

lemma make_locations_ids: "map id_loc (fst (make_locations is r)) = is"
  by (induction "is" arbitrary: r) (simp_all add: split_beta Let_def)

lemma make_locations_dict:
  "l \<in> set (fst (make_locations is r)) \<Longrightarrow> distance_dict l = Map.empty"
  by (induction "is" arbitrary: r) (auto simp: split_beta Let_def)

lemma randint_on_grid: "real_of_int (fst (randint 0 100 r)) \<in> of_int ` {0..100}"
proof -
  have "0 \<le> fst (randint 0 100 r)" "fst (randint 0 100 r) \<le> 100"
    by (simp_all add: randint_def)
  then show ?thesis by simp
qed

lemma make_locations_on_grid: "l \<in> set (fst (make_locations is r)) \<Longrightarrow> on_grid l"
proof (induction "is" arbitrary: r)
  case Nil
  then show ?case by simp
next
  case (Cons i rest)
  then show ?case
    using randint_on_grid [of r] randint_on_grid [of "snd (randint 0 100 r)"]
    by (auto simp: split_beta Let_def on_grid_def)
qed

lemma on_grid_place: "place a = place b \<Longrightarrow> on_grid a = on_grid b"
  by (simp add: place_def on_grid_def)

text \<open>
  One run of the inner loop for the Location at position \<open>k\<close>: it cannot fail on indices
  within the list, it changes the mapping of that Location only, and the entry under
  every index it passed is the distance to the Location at that index.
\<close>

lemma inner_loop_result:
  assumes "k < length locs" and "\<forall>i\<in>set is. 0 \<le> i \<and> i < int (length locs)"
  shows "\<exists>locs'. inner_loop k is locs = Inr locs' \<and> length locs' = length locs \<and>
           map place locs' = map place locs \<and>
           (\<forall>j<length locs. j \<noteq> k \<longrightarrow> locs' ! j = locs ! j) \<and>
           (\<forall>x. distance_dict (locs' ! k) x =
                  (if x \<in> set is then Some (distance_to (locs ! k) (locs ! nat x))
                   else distance_dict (locs ! k) x))"
  using assms
proof (induction "is" arbitrary: locs)
  case Nil
  then show ?case by simp
next
  case (Cons i rest)
  define l1 where
    "l1 = (locs ! k)\<lparr>distance_dict :=
             (distance_dict (locs ! k))(i \<mapsto> distance_to (locs ! k) (locs ! nat i))\<rparr>"
  define locs1 where "locs1 = locs[k := l1]"
  have i: "0 \<le> i" "i < int (length locs)" using Cons.prems by auto
  have len1: "length locs1 = length locs" by (simp add: locs1_def)
  have place1: "map place locs1 = map place locs"
    using Cons.prems(1) by (simp add: locs1_def l1_def map_update list_update_same_conv)
  have step: "inner_loop k (i # rest) locs = inner_loop k rest locs1"
    using i by (simp add: getitem_list_def Let_def locs1_def l1_def)
  have "k < length locs1" "\<forall>i\<in>set rest. 0 \<le> i \<and> i < int (length locs1)"
    using Cons.prems by (simp_all add: len1)
  from Cons.IH [OF this] obtain locs' where r:
    "inner_loop k rest locs1 = Inr locs'" "length locs' = length locs1"
    "map place locs' = map place locs1"
    "\<forall>j<length locs1. j \<noteq> k \<longrightarrow> locs' ! j = locs1 ! j"
    "\<forall>x. distance_dict (locs' ! k) x =
          (if x \<in> set rest then Some (distance_to (locs1 ! k) (locs1 ! nat x))
           else distance_dict (locs1 ! k) x)"
    by blast
  have pl: "place (locs1 ! j) = place (locs ! j)" if "j < length locs" for j
    using place1 that len1 by (metis nth_map)
  have d: "distance_to (locs1 ! k) (locs1 ! nat x) = distance_to (locs ! k) (locs ! nat x)"
    if "x \<in> set rest" for x
  proof -
    have "nat x < length locs" using Cons.prems(2) that by auto
    then show ?thesis using pl Cons.prems(1) by (intro distance_to_place) auto
  qed
  have k1: "locs1 ! k = l1" using Cons.prems(1) by (simp add: locs1_def)
  have "\<forall>x. distance_dict (locs' ! k) x =
          (if x \<in> set (i # rest) then Some (distance_to (locs ! k) (locs ! nat x))
           else distance_dict (locs ! k) x)"
    using r(5) d by (auto simp: k1 l1_def)
  moreover have "\<forall>j<length locs. j \<noteq> k \<longrightarrow> locs' ! j = locs ! j"
    using r(4) by (simp add: len1 locs1_def)
  ultimately show ?case
    using r(1,2,3) step len1 place1 by simp
qed

lemma outer_loop_result:
  assumes "distinct ks" and "\<forall>k\<in>set ks. k < length locs" and "n \<le> length locs"
  shows "\<exists>locs'. outer_loop ks n locs = Inr locs' \<and> length locs' = length locs \<and>
           map place locs' = map place locs \<and>
           (\<forall>j<length locs. j \<notin> set ks \<longrightarrow> locs' ! j = locs ! j) \<and>
           (\<forall>k\<in>set ks. \<forall>x. distance_dict (locs' ! k) x =
                  (if 0 \<le> x \<and> x < int n then Some (distance_to (locs ! k) (locs ! nat x))
                   else distance_dict (locs ! k) x))"
  using assms
proof (induction ks arbitrary: locs)
  case Nil
  then show ?case by simp
next
  case (Cons k rest)
  have range: "x \<in> set (range_py n) \<longleftrightarrow> 0 \<le> x \<and> x < int n" for x
    by (auto simp: range_py_def image_iff intro: bexI [of _ "nat x"])
  have "k < length locs" "\<forall>i\<in>set (range_py n). 0 \<le> i \<and> i < int (length locs)"
    using Cons.prems by (auto simp: range)
  from inner_loop_result [OF this] obtain locs1 where r1:
    "inner_loop k (range_py n) locs = Inr locs1" "length locs1 = length locs"
    "map place locs1 = map place locs"
    "\<forall>j<length locs. j \<noteq> k \<longrightarrow> locs1 ! j = locs ! j"
    "\<forall>x. distance_dict (locs1 ! k) x =
          (if 0 \<le> x \<and> x < int n then Some (distance_to (locs ! k) (locs ! nat x))
           else distance_dict (locs ! k) x)"
    unfolding range by blast
  have "distinct rest" "\<forall>k\<in>set rest. k < length locs1" "n \<le> length locs1"
    using Cons.prems r1(2) by simp_all
  from Cons.IH [OF this] obtain locs' where r:
    "outer_loop rest n locs1 = Inr locs'" "length locs' = length locs1"
    "map place locs' = map place locs1"
    "\<forall>j<length locs1. j \<notin> set rest \<longrightarrow> locs' ! j = locs1 ! j"
    "\<forall>k\<in>set rest. \<forall>x. distance_dict (locs' ! k) x =
          (if 0 \<le> x \<and> x < int n then Some (distance_to (locs1 ! k) (locs1 ! nat x))
           else distance_dict (locs1 ! k) x)"
    by blast
  have pl: "place (locs1 ! j) = place (locs ! j)" if "j < length locs" for j
    using r1(2,3) that by (metis nth_map)
  have kk: "k \<notin> set rest" "k < length locs" using Cons.prems by auto
  have dk: "distance_dict (locs' ! k) x =
          (if 0 \<le> x \<and> x < int n then Some (distance_to (locs ! k) (locs ! nat x))
           else distance_dict (locs ! k) x)" for x
    using r(4) r1(2,5) kk by simp
  have dr: "distance_dict (locs' ! j) x =
          (if 0 \<le> x \<and> x < int n then Some (distance_to (locs ! j) (locs ! nat x))
           else distance_dict (locs ! j) x)" if j: "j \<in> set rest" for j x
  proof -
    have jl: "j < length locs" "j \<noteq> k" using j Cons.prems by auto
    have same: "locs1 ! j = locs ! j" using r1(4) jl by simp
    have "distance_to (locs1 ! j) (locs1 ! nat x) = distance_to (locs ! j) (locs ! nat x)"
      if "0 \<le> x" "x < int n"
    proof -
      have "nat x < length locs" using that Cons.prems(3) by auto
      then show ?thesis using pl jl by (intro distance_to_place) auto
    qed
    then show ?thesis using r(5) j same by auto
  qed
  have "\<forall>j\<in>set (k # rest). \<forall>x. distance_dict (locs' ! j) x =
          (if 0 \<le> x \<and> x < int n then Some (distance_to (locs ! j) (locs ! nat x))
           else distance_dict (locs ! j) x)"
    using dk dr by auto
  moreover have "\<forall>j<length locs. j \<notin> set (k # rest) \<longrightarrow> locs' ! j = locs ! j"
    using r(4) r1(2,4) by simp
  ultimately show ?case
    using r(1,2,3) r1(1,2,3) by simp
qed

lemma make_vehicles_result:
  assumes "locs \<noteq> []"
  shows "\<exists>vs r'. make_vehicles is locs r = Inr (vs, r') \<and> length vs = length is \<and>
           (\<forall>v\<in>set vs. start_location v \<in> set locs \<and> vehicle.visits v = [])"
proof (induction "is" arbitrary: r)
  case Nil
  show ?case by simp
next
  case (Cons i rest)
  have c: "choice locs r = Inr (locs ! (shd r mod length locs), stl r)"
    using assms by (simp add: choice_def)
  have m: "locs ! (shd r mod length locs) \<in> set locs"
    using assms by simp
  from Cons [of "stl r"] obtain vs r' where
    "make_vehicles rest locs (stl r) = Inr (vs, r')" "length vs = length rest"
    "\<forall>v\<in>set vs. start_location v \<in> set locs \<and> vehicle.visits v = []"
    by blast
  then show ?case using c m by simp
qed

text \<open>
  The generator with a positive Location count, or without vehicles, returns a plan: the
  ids are the positions, and every mapping holds exactly the positions as keys, each with
  the distance to the Location at that position.
\<close>

lemma generate_problem_with_result:
  assumes "0 < n \<or> m = 0"
  shows "\<exists>p. generate_problem_with r n m = Inr p \<and> length (routing_plan.visits p) = n \<and>
           length (vehicles p) = m \<and> score p = None \<and>
           (\<forall>v\<in>set (vehicles p).
              start_location v \<in> set (routing_plan.visits p) \<and> vehicle.visits v = []) \<and>
           map id_loc (routing_plan.visits p) = range_py n \<and>
           (\<forall>a\<in>set (routing_plan.visits p). \<forall>x. distance_dict a x =
              (if 0 \<le> x \<and> x < int n
               then Some (distance_to a (routing_plan.visits p ! nat x)) else None)) \<and>
           (\<forall>a\<in>set (routing_plan.visits p). on_grid a)"
proof -
  define locs0 where "locs0 = fst (make_locations (range_py n) r)"
  define r1 where "r1 = snd (make_locations (range_py n) r)"
  have len0: "length locs0 = n"
    by (simp add: locs0_def make_locations_length range_py_def)
  have ids0: "map id_loc locs0 = range_py n"
    by (simp add: locs0_def make_locations_ids)
  have dict0: "distance_dict (locs0 ! i) = Map.empty" if "i < n" for i
    using that len0 make_locations_dict [of "locs0 ! i" "range_py n" r]
    by (simp add: locs0_def)
  have "distinct [0..<length locs0]" "\<forall>k\<in>set [0..<length locs0]. k < length locs0"
    "n \<le> length locs0"
    by (simp_all add: len0)
  from outer_loop_result [OF this] obtain locs where o:
    "outer_loop [0..<length locs0] n locs0 = Inr locs" "length locs = length locs0"
    "map place locs = map place locs0"
    "\<forall>k\<in>set [0..<length locs0]. \<forall>x. distance_dict (locs ! k) x =
        (if 0 \<le> x \<and> x < int n then Some (distance_to (locs0 ! k) (locs0 ! nat x))
         else distance_dict (locs0 ! k) x)"
    by blast
  have len: "length locs = n" using o(2) len0 by simp
  have pl: "place (locs ! j) = place (locs0 ! j)" if "j < n" for j
    using o(3) that len len0 by (metis nth_map)
  have ids: "map id_loc locs = range_py n"
  proof -
    have "map id_loc locs = map (fst \<circ> place) locs" by (simp add: place_def comp_def)
    also have "\<dots> = map fst (map place locs0)" using o(3) by (metis map_map)
    also have "\<dots> = map id_loc locs0" by (simp add: place_def comp_def)
    finally show ?thesis using ids0 by simp
  qed
  have dict: "distance_dict a x =
      (if 0 \<le> x \<and> x < int n then Some (distance_to a (locs ! nat x)) else None)"
    if a: "a \<in> set locs" for a x
  proof -
    from a obtain k where k: "k < n" "a = locs ! k"
      using len by (auto simp: in_set_conv_nth)
    have "distance_to (locs0 ! k) (locs0 ! nat x) = distance_to (locs ! k) (locs ! nat x)"
      if "0 \<le> x" "x < int n"
    proof -
      have "nat x < n" using that by auto
      then show ?thesis using pl k(1) by (intro distance_to_place) auto
    qed
    then show ?thesis using o(4) k dict0 [of k] len0 by auto
  qed
  have grid: "on_grid a" if a: "a \<in> set locs" for a
  proof -
    from a obtain k where k: "k < n" "a = locs ! k"
      using len by (auto simp: in_set_conv_nth)
    have "locs0 ! k \<in> set (fst (make_locations (range_py n) r))"
      using k(1) len0 by (simp add: locs0_def)
    then have "on_grid (locs0 ! k)" by (rule make_locations_on_grid)
    then show ?thesis using on_grid_place [OF pl [OF k(1)]] k(2) by simp
  qed
  have "\<exists>vs r2. make_vehicles (range_py m) locs r1 = Inr (vs, r2) \<and> length vs = m \<and>
           (\<forall>v\<in>set vs. start_location v \<in> set locs \<and> vehicle.visits v = [])"
  proof (cases "m = 0")
    case True
    then show ?thesis by (simp add: range_py_def)
  next
    case False
    then have "locs \<noteq> []" using assms len by auto
    from make_vehicles_result [OF this, of "range_py m" r1] show ?thesis
      by (simp add: range_py_def)
  qed
  then obtain vs r2 where v:
    "make_vehicles (range_py m) locs r1 = Inr (vs, r2)" "length vs = m"
    "\<forall>v\<in>set vs. start_location v \<in> set locs \<and> vehicle.visits v = []"
    by blast
  have "generate_problem_with r n m = Inr \<lparr>vehicles = vs, visits = locs, score = None\<rparr>"
    using o(1) v(1)
    by (simp add: generate_problem_with_def split_beta Let_def RoutingPlan_def
        locs0_def [symmetric] r1_def [symmetric])
  then show ?thesis using len v(2,3) ids dict grid by simp
qed

lemma generate_problem_with_index:
  assumes "0 < n \<or> m = 0"
  shows "\<exists>p. generate_problem_with r n m = Inr p \<and> length (routing_plan.visits p) = n \<and>
           length (vehicles p) = m \<and>
           map id_loc (routing_plan.visits p) = range_py n \<and>
           (\<forall>v\<in>set (vehicles p).
              start_location v \<in> set (routing_plan.visits p) \<and> at_rest v) \<and>
           (\<forall>a\<in>set (routing_plan.visits p).
              nonneg_costs a \<and> on_grid a \<and>
              (\<forall>b\<in>set (routing_plan.visits p).
                 distance_dict a (id_loc b) = Some (distance_to a b)))"
proof -
  from generate_problem_with_result [OF assms, of r] obtain p where p:
    "generate_problem_with r n m = Inr p" "length (routing_plan.visits p) = n"
    "length (vehicles p) = m"
    "\<forall>v\<in>set (vehicles p).
        start_location v \<in> set (routing_plan.visits p) \<and> vehicle.visits v = []"
    "map id_loc (routing_plan.visits p) = range_py n"
    "\<forall>a\<in>set (routing_plan.visits p). \<forall>x. distance_dict a x =
        (if 0 \<le> x \<and> x < int n
         then Some (distance_to a (routing_plan.visits p ! nat x)) else None)"
    "\<forall>a\<in>set (routing_plan.visits p). on_grid a"
    by blast
  have look: "distance_dict a (id_loc b) = Some (distance_to a b)"
    if a: "a \<in> set (routing_plan.visits p)" and b: "b \<in> set (routing_plan.visits p)"
    for a b
  proof -
    from b obtain j where j: "j < n" "b = routing_plan.visits p ! j"
      using p(2) by (auto simp: in_set_conv_nth)
    have "id_loc b = map id_loc (routing_plan.visits p) ! j"
      using j p(2) by simp
    then have "id_loc b = int j" using j(1) by (simp add: p(5) range_py_def)
    then show ?thesis using p(6) a j by simp
  qed
  have nonneg: "nonneg_costs a" if a: "a \<in> set (routing_plan.visits p)" for a
    using p(6) a by (auto simp: nonneg_costs_def ran_def distance_to_nonneg split: if_splits)
  have rest: "at_rest v" if v: "v \<in> set (vehicles p)" for v
    using p(4) v look [of "start_location v" "start_location v"]
    by (simp add: at_rest_def distance_to_self)
  show ?thesis using p(1,2,3,4,5,7) look nonneg rest by blast
qed

text \<open>Small runs of the generator, evaluated on explicit draws.\<close>

lemma generate_problem_with_two_locations:
  "generate_problem_with (0 ## 0 ## 0 ## 1 ## sconst 1) 2 1 =
     Inr \<lparr>vehicles = [\<lparr>start_location = loc_b, visits = []\<rparr>],
          visits = [loc_a, loc_b], score = None\<rparr>"
  by (simp add: generate_problem_with_def range_py_def randint_def getitem_list_def
      distance_to_def py_round_def RoutingPlan_def choice_def upt_rec numeral_2_eq_2
      loc_a_def loc_b_def)

lemma generate_problem_with_no_locations:
  "generate_problem_with random 0 (Suc m) = Inl IndexError"
  by (simp add: generate_problem_with_def range_py_def choice_def upt_rec)

section \<open>Vehicles without visits\<close>

text \<open>
  C5, as stated, fails: the distance of a vehicle without visits is the entry that its
  start Location stores under its own id. A Location whose mapping is still empty, as
  line 63 constructs it, makes \<open>total_distance\<close> raise \<^verbatim>\<open>KeyError\<close>, and an entry 7
  makes it return 7.
\<close>

theorem empty_route_counterexample:
  "total_distance \<lparr>start_location = unfilled, visits = []\<rparr> = Inl KeyError \<and>
   total_distance \<lparr>start_location = unfilled\<lparr>distance_dict := [0 \<mapsto> 7]\<rparr>, visits = []\<rparr>
     = Inr 7"
  by (simp add: total_distance_def getitem_def unfilled_def)

text \<open>
  C5, amended. For every Vehicle whose Visit list is empty and whose start Location maps
  its own id to the cost 0, the route distance is 0; a plan all of whose Vehicles are
  such has the full score 0; and every plan that \<open>generate_problem\<close> returns is such a
  plan. The full score is 0 both as the score contract of the specification states it
  (\<open>full_score\<close>) and as the constraint of the code computes it (\<open>plan_score\<close>).
\<close>

theorem empty_route_zero:
  "(at_rest v \<longrightarrow> total_distance v = Inr 0) \<and>
   (list_all at_rest (vehicles s) \<longrightarrow> full_score s = Inr 0) \<and>
   (\<exists>p. generate_problem random = Inr p \<and> list_all at_rest (vehicles p) \<and>
        full_score p = Inr 0) \<and>
   (list_all at_rest (vehicles s) \<longrightarrow> plan_score s = Inr 0) \<and>
   (\<exists>p. generate_problem random = Inr p \<and> list_all at_rest (vehicles p) \<and>
        plan_score p = Inr 0)"
proof -
  from generate_problem_with_index [of 100 4 random] obtain p where
    "generate_problem random = Inr p" "\<forall>v\<in>set (vehicles p). at_rest v"
    unfolding generate_problem_def by auto
  then have "generate_problem random = Inr p \<and> list_all at_rest (vehicles p) \<and>
      full_score p = Inr 0 \<and> plan_score p = Inr 0"
    by (simp add: list_all_iff at_rest_full_score at_rest_plan_score)
  then show ?thesis
    using at_rest_total_distance at_rest_full_score at_rest_plan_score by blast
qed

theorem empty_route_zero_witness:
  "at_rest \<lparr>start_location = loc_a, visits = []\<rparr> \<and>
   total_distance \<lparr>start_location = loc_a, visits = []\<rparr> = Inr 0 \<and>
   list_all at_rest (vehicles scenario_c) \<and> full_score scenario_c = Inr 0 \<and>
   (\<exists>p. generate_problem (sconst 0) = Inr p \<and> full_score p = Inr 0) \<and>
   plan_score scenario_c = Inr 0 \<and>
   (\<exists>p. generate_problem (sconst 0) = Inr p \<and> plan_score p = Inr 0)"
proof -
  have v: "at_rest \<lparr>start_location = loc_a, visits = []\<rparr>"
    by (simp add: at_rest_def loc_a_def)
  then have s: "list_all at_rest (vehicles scenario_c)"
    by (simp add: scenario_c_def list_all_iff)
  show ?thesis
    using empty_route_zero [of "\<lparr>start_location = loc_a, visits = []\<rparr>" scenario_c "sconst 0"]
      v s by blast
qed

section \<open>Constructing a plan\<close>

text \<open>
  C6, as stated, fails: the constructor accepts an empty Location list and an empty
  vehicle list, and the body of \<open>generate_problem\<close> run with a vehicle count of zero
  returns a plan without vehicles.
\<close>

theorem RoutingPlan_empty_counterexample:
  "RoutingPlan [] [] = Inr \<lparr>vehicles = [], visits = [], score = None\<rparr> \<and>
   generate_problem_with (sconst 0) 1 0 =
     Inr \<lparr>vehicles = [],
          visits = [\<lparr>id_loc = 0, latitude = 0, longitude = 0, distance_dict = [0 \<mapsto> 0]\<rparr>],
          score = None\<rparr>"
  by (simp add: generate_problem_with_def range_py_def randint_def getitem_list_def
      distance_to_def py_round_def RoutingPlan_def)

text \<open>
  C6, amended. Constructing a RoutingPlan validates nothing and never fails: whatever
  the vehicle list and the Location list are, empty or not, the plan that holds them is
  returned; and \<open>generate_problem\<close>, whose counts are the constants 100 and 4, always
  returns a plan.
\<close>

theorem construction_never_fails:
  "RoutingPlan vs locations = Inr \<lparr>vehicles = vs, visits = locations, score = None\<rparr> \<and>
   (\<exists>p. generate_problem random = Inr p)"
  using generate_problem_with_result [of 100 4 random]
  by (auto simp: RoutingPlan_def generate_problem_def)

theorem construction_never_fails_witness:
  "RoutingPlan [] [loc_a] = Inr \<lparr>vehicles = [], visits = [loc_a], score = None\<rparr> \<and>
   (\<exists>p. generate_problem (sconst 0) = Inr p)"
  using construction_never_fails [of "[]" "[loc_a]" "sconst 0"] by simp

section \<open>The sign of distances and scores\<close>

text \<open>
  C8, as stated, fails in both consequences. \<open>total_distance\<close> sums what the mappings
  store, and a Location is a plain dataclass whose mapping may store any integer: with
  the entry -5 under its own id, a vehicle without visits has the total distance -5. And
  the score is a signed 64-bit integer: three vehicles whose Locations store the
  nonnegative cost \<open>2 ^ 62\<close> get the positive score \<open>2 ^ 62\<close>.
\<close>

theorem total_distance_negative_counterexample:
  "total_distance \<lparr>start_location = unfilled\<lparr>distance_dict := [0 \<mapsto> - 5]\<rparr>, visits = []\<rparr>
     = Inr (- 5) \<and>
   list_all (\<lambda>v. list_all nonneg_costs (route v)) (vehicles heavy_plan) \<and>
   total_distance heavy = Inr (2 ^ 62) \<and>
   plan_score heavy_plan = Inr (2 ^ 62)"
proof -
  have "nonneg_costs (unfilled\<lparr>distance_dict := [0 \<mapsto> 2 ^ 62]\<rparr>)"
    by (auto simp: nonneg_costs_def ran_def split: if_splits)
  then have "list_all (\<lambda>v. list_all nonneg_costs (route v)) (vehicles heavy_plan)"
    by (simp add: heavy_plan_def heavy_def route_def)
  moreover have "total_distance heavy = Inr (2 ^ 62)"
    by (simp add: total_distance_def getitem_def heavy_def unfilled_def)
  moreover have "plan_score heavy_plan = Inr (2 ^ 62)"
    by (simp add: plan_score_def vrp_constraints_def total_distance_def getitem_def
        wrap64_def heavy_plan_def heavy_def unfilled_def)
  moreover have "total_distance
      \<lparr>start_location = unfilled\<lparr>distance_dict := [0 \<mapsto> - 5]\<rparr>, visits = []\<rparr> = Inr (- 5)"
    by (simp add: total_distance_def getitem_def unfilled_def)
  ultimately show ?thesis by simp
qed

text \<open>
  C8, amended. For all Locations a and b whose coordinates are integers from 0 to 100,
  as those of every Location that \<open>generate_problem\<close> builds are, \<open>distance_to a b\<close> is
  a nonnegative integer and \<open>distance_to a a\<close> is 0. Consequently, every Location of a
  plan that \<open>generate_problem\<close> returns stores nonnegative values only; for a Vehicle
  all of whose Locations (its start and its visits) store nonnegative values only, a
  total distance that \<open>total_distance\<close> returns is nonnegative; and a full score that
  the scoring returns is at most 0 when the total distance of every Vehicle is
  nonnegative and below \<open>2 ^ 63\<close> and the total distances sum to at most \<open>2 ^ 63\<close>.
\<close>

theorem penalty_sign:
  "(on_grid a \<and> on_grid b \<longrightarrow> 0 \<le> distance_to a b \<and> distance_to a a = 0) \<and>
   (list_all nonneg_costs (route v) \<and> total_distance v = Inr t \<longrightarrow> 0 \<le> t) \<and>
   (list_all weight_in_range (vehicles s) \<and> sum_in_range s \<and> plan_score s = Inr x
      \<longrightarrow> x \<le> 0) \<and>
   (\<exists>p. generate_problem random = Inr p \<and> list_all on_grid (routing_plan.visits p) \<and>
        list_all nonneg_costs (routing_plan.visits p))"
proof -
  from generate_problem_with_index [of 100 4 random] obtain p where
    "generate_problem random = Inr p"
    "\<forall>a\<in>set (routing_plan.visits p). nonneg_costs a \<and> on_grid a"
    unfolding generate_problem_def by auto
  then have "\<exists>p. generate_problem random = Inr p \<and>
      list_all on_grid (routing_plan.visits p) \<and>
      list_all nonneg_costs (routing_plan.visits p)"
    by (auto simp: list_all_iff)
  moreover have "list_all nonneg_costs (route v) \<and> total_distance v = Inr t \<longrightarrow> 0 \<le> t"
    using route_cost_nonneg [of v t] by (simp add: total_distance_Inr_iff)
  moreover have "x \<le> 0"
    if h: "list_all weight_in_range (vehicles s)" "sum_in_range s" "plan_score s = Inr x"
  proof -
    from plan_score_exact [OF h(1,2)] h(3) have "negated_sum s = Some x"
      by (cases "negated_sum s") (simp_all add: raise_if_none_def)
    then show ?thesis using negated_sum_nonpos [OF h(1)] by simp
  qed
  ultimately show ?thesis
    using distance_to_nonneg [of a b] distance_to_self [of a] by blast
qed

theorem penalty_sign_witness:
  "on_grid loc_a \<and> on_grid loc_b \<and>
   0 \<le> distance_to loc_a loc_b \<and> distance_to loc_a loc_a = 0 \<and>
   list_all nonneg_costs (route \<lparr>start_location = loc_a, visits = [loc_b]\<rparr>) \<and>
   total_distance \<lparr>start_location = loc_a, visits = [loc_b]\<rparr> = Inr 200 \<and> (0 :: int) \<le> 200 \<and>
   list_all weight_in_range (vehicles scenario_b) \<and> sum_in_range scenario_b \<and>
   plan_score scenario_b = Inr (- 200) \<and> (- 200 :: int) \<le> 0 \<and>
   (\<exists>p. generate_problem (sconst 0) = Inr p \<and> list_all on_grid (routing_plan.visits p) \<and>
        list_all nonneg_costs (routing_plan.visits p))"
proof -
  have g: "on_grid loc_a" "on_grid loc_b"
    by (simp_all add: on_grid_def loc_a_def loc_b_def)
  have a: "nonneg_costs loc_a" and b: "nonneg_costs loc_b"
    by (auto simp: nonneg_costs_def ran_def loc_a_def loc_b_def split: if_splits)
  have r: "list_all nonneg_costs (route \<lparr>start_location = loc_a, visits = [loc_b]\<rparr>)"
    using a b by (simp add: route_def)
  have t: "total_distance \<lparr>start_location = loc_a, visits = [loc_b]\<rparr> = Inr 200"
    by (simp add: total_distance_def getitem_def loc_a_def loc_b_def)
  have w: "list_all weight_in_range (vehicles scenario_b)"
    using t by (simp add: weight_in_range_def scenario_b_def)
  have n: "sum_in_range scenario_b"
    by (simp add: sum_in_range_def negated_sum_def route_cost_def route_def edge_cost_def
        scenario_b_def loc_a_def loc_b_def)
  have f: "plan_score scenario_b = Inr (- 200)"
    using t by (simp add: plan_score_def vrp_constraints_def wrap64_def scenario_b_def)
  show ?thesis
    using penalty_sign [of loc_a loc_b "\<lparr>start_location = loc_a, visits = [loc_b]\<rparr>" 200
        scenario_b "- 200" "sconst 0"] g r t w n f
    by simp
qed

section \<open>Lookups on a generated plan\<close>

text \<open>
  C9. In every plan that \<open>generate_problem\<close> returns (and it always returns one), the
  mapping of every Location has an entry under the id of every Location of the plan, its
  own id included, and the entry is the distance to that Location. Therefore
  \<open>total_distance\<close> returns a distance, and raises no \<^verbatim>\<open>KeyError\<close>, for every vehicle
  whose start and visits are Locations of the plan: in particular for every vehicle of
  the plan with any list of the plan's Locations as its visits, the empty list included.
\<close>

theorem generated_lookups_defined:
  "\<exists>p. generate_problem random = Inr p \<and>
     (\<forall>a\<in>set (routing_plan.visits p). \<forall>b\<in>set (routing_plan.visits p).
        distance_dict a (id_loc b) = Some (distance_to a b)) \<and>
     (\<forall>v. start_location v \<in> set (routing_plan.visits p) \<and>
          set (vehicle.visits v) \<subseteq> set (routing_plan.visits p) \<longrightarrow>
          (\<exists>d. total_distance v = Inr d)) \<and>
     (\<forall>w\<in>set (vehicles p). \<forall>vs. set vs \<subseteq> set (routing_plan.visits p) \<longrightarrow>
        (\<exists>d. total_distance (w\<lparr>vehicle.visits := vs\<rparr>) = Inr d))"
proof -
  from generate_problem_with_index [of 100 4 random] obtain p where p:
    "generate_problem random = Inr p"
    "\<forall>v\<in>set (vehicles p). start_location v \<in> set (routing_plan.visits p)"
    "\<forall>a\<in>set (routing_plan.visits p). \<forall>b\<in>set (routing_plan.visits p).
        distance_dict a (id_loc b) = Some (distance_to a b)"
    unfolding generate_problem_def by auto
  have any: "\<exists>d. total_distance v = Inr d"
    if "start_location v \<in> set (routing_plan.visits p)"
      "set (vehicle.visits v) \<subseteq> set (routing_plan.visits p)" for v
  proof -
    have "set (route v) \<subseteq> set (routing_plan.visits p)"
      using that by (auto simp: route_def)
    moreover have "\<forall>a\<in>set (routing_plan.visits p). \<forall>b\<in>set (routing_plan.visits p).
        distance_dict a (id_loc b) \<noteq> None"
      using p(3) by simp
    ultimately show ?thesis
      using route_cost_defined by (simp add: total_distance_Inr_iff)
  qed
  have "\<exists>d. total_distance (w\<lparr>vehicle.visits := vs\<rparr>) = Inr d"
    if "w \<in> set (vehicles p)" "set vs \<subseteq> set (routing_plan.visits p)" for w vs
    using that p(2) by (intro any) simp_all
  then show ?thesis using p(1,3) any by blast
qed

theorem generated_lookups_defined_witness:
  "\<exists>p. generate_problem (sconst 0) = Inr p \<and>
     distance_dict (routing_plan.visits p ! 0) (id_loc (routing_plan.visits p ! 99))
       = Some (distance_to (routing_plan.visits p ! 0) (routing_plan.visits p ! 99)) \<and>
     (\<exists>d. total_distance (vehicles p ! 0) = Inr d) \<and>
     (\<exists>d. total_distance
        ((vehicles p ! 3)\<lparr>vehicle.visits :=
           [routing_plan.visits p ! 5, routing_plan.visits p ! 7]\<rparr>) = Inr d)"
proof -
  from generated_lookups_defined [of "sconst 0"] obtain p where p:
    "generate_problem (sconst 0) = Inr p"
    "\<forall>a\<in>set (routing_plan.visits p). \<forall>b\<in>set (routing_plan.visits p).
        distance_dict a (id_loc b) = Some (distance_to a b)"
    "\<forall>w\<in>set (vehicles p). \<forall>vs. set vs \<subseteq> set (routing_plan.visits p) \<longrightarrow>
        (\<exists>d. total_distance (w\<lparr>vehicle.visits := vs\<rparr>) = Inr d)"
    by blast
  from generate_problem_with_index [of 100 4 "sconst 0"] p(1) have len:
    "length (routing_plan.visits p) = 100" "length (vehicles p) = 4"
    "\<forall>v\<in>set (vehicles p). at_rest v"
    unfolding generate_problem_def by auto
  have l: "routing_plan.visits p ! 0 \<in> set (routing_plan.visits p)"
    "routing_plan.visits p ! 5 \<in> set (routing_plan.visits p)"
    "routing_plan.visits p ! 7 \<in> set (routing_plan.visits p)"
    "routing_plan.visits p ! 99 \<in> set (routing_plan.visits p)"
    using len(1) by simp_all
  have v: "vehicles p ! 0 \<in> set (vehicles p)" "vehicles p ! 3 \<in> set (vehicles p)"
    using len(2) by simp_all
  have "vehicle.visits (vehicles p ! 0) = []"
    using len(3) v(1) by (simp add: at_rest_def)
  then have "(vehicles p ! 0)\<lparr>vehicle.visits := []\<rparr> = vehicles p ! 0" by simp
  moreover have "\<exists>d. total_distance ((vehicles p ! 0)\<lparr>vehicle.visits := []\<rparr>) = Inr d"
    using p(3) v(1) by simp
  ultimately have "\<exists>d. total_distance (vehicles p ! 0) = Inr d" by simp
  moreover have "\<exists>d. total_distance
        ((vehicles p ! 3)\<lparr>vehicle.visits :=
           [routing_plan.visits p ! 5, routing_plan.visits p ! 7]\<rparr>) = Inr d"
    using p(3) v(2) l by simp
  ultimately show ?thesis using p(1,2) l by blast
qed

section \<open>The shape of a generated plan\<close>

text \<open>
  C10. \<open>generate_problem\<close> always returns a plan; the plan has exactly 100 Locations,
  with the ids 0 to 99 in list order, and exactly 4 Vehicles; and the start Location of
  every Vehicle is an element of the Location list that is the value range of the visits,
  so a start Location is also an assignable visit. Every Vehicle starts without visits.
\<close>

theorem generated_plan_shape:
  "\<exists>p. generate_problem random = Inr p \<and> length (routing_plan.visits p) = 100 \<and>
     length (vehicles p) = 4 \<and> map id_loc (routing_plan.visits p) = range_py 100 \<and>
     (\<forall>v\<in>set (vehicles p).
        start_location v \<in> set (routing_plan.visits p) \<and> vehicle.visits v = [])"
  using generate_problem_with_result [of 100 4 random]
  unfolding generate_problem_def by auto

theorem generated_plan_shape_witness:
  "\<exists>p. generate_problem (sconst 0) = Inr p \<and> length (routing_plan.visits p) = 100 \<and>
     length (vehicles p) = 4 \<and> id_loc (routing_plan.visits p ! 42) = 42 \<and>
     start_location (vehicles p ! 0) \<in> set (routing_plan.visits p) \<and>
     vehicle.visits (vehicles p ! 0) = []"
proof -
  from generated_plan_shape [of "sconst 0"] obtain p where p:
    "generate_problem (sconst 0) = Inr p" "length (routing_plan.visits p) = 100"
    "length (vehicles p) = 4" "map id_loc (routing_plan.visits p) = range_py 100"
    "\<forall>v\<in>set (vehicles p).
        start_location v \<in> set (routing_plan.visits p) \<and> vehicle.visits v = []"
    by blast
  have "vehicles p ! 0 \<in> set (vehicles p)" using p(3) by simp
  then have v: "start_location (vehicles p ! 0) \<in> set (routing_plan.visits p)"
    "vehicle.visits (vehicles p ! 0) = []"
    using p(5) by simp_all
  have "id_loc (routing_plan.visits p ! 42) = map id_loc (routing_plan.visits p) ! 42"
    using p(2) by simp
  then have "id_loc (routing_plan.visits p ! 42) = 42"
    by (simp add: p(4) range_py_def)
  then show ?thesis using p(1,2,3) v by blast
qed

section \<open>Moves and the incremental score\<close>
lemma sum_list_update_int:
  "i < length xs \<Longrightarrow> sum_list (xs[i := y]) = sum_list xs - xs ! i + (y :: int)"
  by (induction xs arbitrary: i) (auto split: nat.splits)

lemma resum_Inr:
  assumes "route_cost (vs ! fst u) = Some c"
    and "route_cost ((vs ! fst u)\<lparr>vehicle.visits := snd u\<rparr>) = Some c'"
  shows "resum vs u = Inr (c' - c)"
  using assms by (simp add: resum_def total_distance_route_cost raise_if_none_def)

lemma reroute_length [simp]: "length (reroute vs u) = length vs"
  by (simp add: reroute_def)

lemma reroute_nth_other: "i \<noteq> fst u \<Longrightarrow> reroute vs u ! i = vs ! i"
  by (simp add: reroute_def)

lemma reroute_costs:
  assumes "fst u < length vs" and "\<forall>v\<in>set vs. route_cost v \<noteq> None"
    and "route_cost ((vs ! fst u)\<lparr>vehicle.visits := snd u\<rparr>) \<noteq> None"
  shows "(\<forall>v\<in>set (reroute vs u). route_cost v \<noteq> None) \<and>
         sum_list (map cost_of (reroute vs u)) =
           sum_list (map cost_of vs) +
           (cost_of ((vs ! fst u)\<lparr>vehicle.visits := snd u\<rparr>) - cost_of (vs ! fst u))"
proof -
  have "set (reroute vs u) \<subseteq> insert ((vs ! fst u)\<lparr>vehicle.visits := snd u\<rparr>) (set vs)"
    unfolding reroute_def by (rule set_update_subset_insert)
  then have "\<forall>v\<in>set (reroute vs u). route_cost v \<noteq> None"
    using assms(2,3) by auto
  moreover have "sum_list (map cost_of (reroute vs u)) =
      sum_list (map cost_of vs) - cost_of (vs ! fst u)
        + cost_of ((vs ! fst u)\<lparr>vehicle.visits := snd u\<rparr>)"
    using assms(1) by (simp add: reroute_def map_update sum_list_update_int)
  ultimately show ?thesis by simp
qed

lemma resum_reroute: "fst w \<noteq> fst u \<Longrightarrow> resum (reroute vs u) w = resum vs w"
  by (simp add: resum_def reroute_nth_other cong: sum.case_cong)

lemma delta_sum_reroute:
  "fst u \<notin> fst ` set us \<Longrightarrow> delta_sum (reroute vs u) us = delta_sum vs us"
proof (induction us)
  case Nil
  show ?case by simp
next
  case (Cons w us)
  then have "fst w \<noteq> fst u" "fst u \<notin> fst ` set us" by auto
  then show ?case using Cons.IH by (simp add: resum_reroute cong: sum.case_cong)
qed

text \<open>
  Rerouting the affected vehicles one after the other changes the sum of the route costs
  by what \<open>delta_sum\<close> computes on the plan before the move.
\<close>

lemma fold_reroute_costs:
  assumes "distinct (map fst us)" and "\<forall>u\<in>set us. fst u < length vs"
    and "\<forall>v\<in>set vs. route_cost v \<noteq> None"
    and "\<forall>u\<in>set us. route_cost ((vs ! fst u)\<lparr>vehicle.visits := snd u\<rparr>) \<noteq> None"
  shows "\<exists>d. delta_sum vs us = Inr d \<and>
           (\<forall>v\<in>set (fold (\<lambda>u vs. reroute vs u) us vs). route_cost v \<noteq> None) \<and>
           sum_list (map cost_of (fold (\<lambda>u vs. reroute vs u) us vs)) =
             sum_list (map cost_of vs) + d"
  using assms
proof (induction us arbitrary: vs)
  case Nil
  then show ?case by simp
next
  case (Cons u us)
  let ?vs1 = "reroute vs u"
  have u: "fst u < length vs" "fst u \<notin> fst ` set us"
    using Cons.prems(1,2) by auto
  have new: "route_cost ((vs ! fst u)\<lparr>vehicle.visits := snd u\<rparr>) \<noteq> None"
    using Cons.prems(4) by simp
  have old: "route_cost (vs ! fst u) \<noteq> None"
    using Cons.prems(3) u(1) by simp
  from reroute_costs [OF u(1) Cons.prems(3) new] have r1:
    "\<forall>v\<in>set ?vs1. route_cost v \<noteq> None"
    "sum_list (map cost_of ?vs1) =
       sum_list (map cost_of vs) +
       (cost_of ((vs ! fst u)\<lparr>vehicle.visits := snd u\<rparr>) - cost_of (vs ! fst u))"
    by simp_all
  have same: "?vs1 ! fst w = vs ! fst w" if "w \<in> set us" for w
  proof -
    have "fst w \<in> fst ` set us" using that by simp
    then have "fst w \<noteq> fst u" using u(2) by metis
    then show ?thesis by (rule reroute_nth_other)
  qed
  have "distinct (map fst us)" "\<forall>w\<in>set us. fst w < length ?vs1"
    "\<forall>w\<in>set us. route_cost ((?vs1 ! fst w)\<lparr>vehicle.visits := snd w\<rparr>) \<noteq> None"
    using Cons.prems(1,2,4) same by simp_all
  from Cons.IH [OF this(1,2) r1(1) this(3)] obtain d where d:
    "delta_sum ?vs1 us = Inr d"
    "\<forall>v\<in>set (fold (\<lambda>u vs. reroute vs u) us ?vs1). route_cost v \<noteq> None"
    "sum_list (map cost_of (fold (\<lambda>u vs. reroute vs u) us ?vs1)) =
       sum_list (map cost_of ?vs1) + d"
    by blast
  have ds: "delta_sum vs us = Inr d"
    using d(1) delta_sum_reroute [OF u(2)] by simp
  have rs: "resum vs u =
      Inr (cost_of ((vs ! fst u)\<lparr>vehicle.visits := snd u\<rparr>) - cost_of (vs ! fst u))"
    using old new by (intro resum_Inr) (auto simp: cost_of_def)
  show ?case using ds rs d(2,3) r1(2) by simp
qed


lemma moved_routes_indices:
  assumes "legal s m"
  shows "distinct (map fst (moved_routes (vehicles s) m)) \<and>
         (\<forall>u\<in>set (moved_routes (vehicles s) m). fst u < length (vehicles s)) \<and>
         length (moved_routes (vehicles s) m) \<le> 2"
  using assms by (cases m) (auto simp: Let_def split: if_splits)

lemma set_remove_at: "set (remove_at p xs) \<subseteq> set xs"
  by (auto simp: remove_at_def dest: in_set_takeD in_set_dropD)

lemma set_insert_at: "set (insert_at p x xs) \<subseteq> insert x (set xs)"
  by (auto simp: insert_at_def dest: in_set_takeD in_set_dropD)

lemma moved_routes_visits:
  assumes "legal s m" and "u \<in> set (moved_routes (vehicles s) m)"
  shows "set (snd u) \<subseteq> (\<Union>v\<in>set (vehicles s). set (vehicle.visits v))"
proof (cases m)
  case (Relocate sv sp tv tp)
  let ?src = "vehicle.visits (vehicles s ! sv)"
  let ?tgt = "vehicle.visits (vehicles s ! tv)"
  from assms(1) Relocate have r: "sv < length (vehicles s)" "tv < length (vehicles s)"
    "sp < length ?src" by auto
  have src: "set ?src \<subseteq> (\<Union>v\<in>set (vehicles s). set (vehicle.visits v))"
    using r(1) by (meson UN_upper nth_mem)
  have tgt: "set ?tgt \<subseteq> (\<Union>v\<in>set (vehicles s). set (vehicle.visits v))"
    using r(2) by (meson UN_upper nth_mem)
  have x: "?src ! sp \<in> set ?src" using r(3) by simp
  have a: "set (remove_at sp ?src) \<subseteq> set ?src" by (rule set_remove_at)
  have b: "set (insert_at tp (?src ! sp) (remove_at sp ?src)) \<subseteq> set ?src"
    using set_insert_at [of tp "?src ! sp" "remove_at sp ?src"] a x by auto
  have c: "set (insert_at tp (?src ! sp) ?tgt) \<subseteq> set ?src \<union> set ?tgt"
    using set_insert_at [of tp "?src ! sp" ?tgt] x by auto
  from assms(2) Relocate show ?thesis
    using a b c src tgt by (auto simp: Let_def split: if_splits)
next
  case (Swap v1 p1 v2 p2)
  let ?r1 = "vehicle.visits (vehicles s ! v1)"
  let ?r2 = "vehicle.visits (vehicles s ! v2)"
  from assms(1) Swap have r: "v1 < length (vehicles s)" "v2 < length (vehicles s)"
    "p1 < length ?r1" "p2 < length ?r2" by auto
  have s1: "set ?r1 \<subseteq> (\<Union>v\<in>set (vehicles s). set (vehicle.visits v))"
    using r(1) by (meson UN_upper nth_mem)
  have s2: "set ?r2 \<subseteq> (\<Union>v\<in>set (vehicles s). set (vehicle.visits v))"
    using r(2) by (meson UN_upper nth_mem)
  have x1: "?r1 ! p1 \<in> set ?r1" and x2: "?r2 ! p2 \<in> set ?r2" using r(3,4) by simp_all
  have a: "set (?r1[p1 := ?r2 ! p2]) \<subseteq> set ?r1 \<union> set ?r2"
    using set_update_subset_insert [of ?r1 p1 "?r2 ! p2"] x2 by auto
  have b: "set (?r2[p2 := ?r1 ! p1]) \<subseteq> set ?r1 \<union> set ?r2"
    using set_update_subset_insert [of ?r2 p2 "?r1 ! p1"] x1 by auto
  have c: "set (?r1[p1 := ?r1 ! p2, p2 := ?r1 ! p1]) \<subseteq> set ?r1" if "v1 = v2"
  proof -
    have "?r1 ! p2 \<in> set ?r1" using r(4) that by simp
    then have "set (?r1[p1 := ?r1 ! p2]) \<subseteq> set ?r1"
      using set_update_subset_insert [of ?r1 p1 "?r1 ! p2"] by auto
    then show ?thesis
      using set_update_subset_insert [of "?r1[p1 := ?r1 ! p2]" p2 "?r1 ! p1"] x1 by auto
  qed
  from assms(2) Swap show ?thesis
    using a b c s1 s2 by (auto simp: Let_def split: if_splits)
next
  case (SegmentReverse v i j)
  let ?r = "vehicle.visits (vehicles s ! v)"
  from assms(1) SegmentReverse have r: "v < length (vehicles s)" by auto
  have s: "set ?r \<subseteq> (\<Union>v\<in>set (vehicles s). set (vehicle.visits v))"
    using r by (meson UN_upper nth_mem)
  have "set (take i ?r @ rev (take (Suc j - i) (drop i ?r)) @ drop (Suc j) ?r) \<subseteq> set ?r"
    by (auto dest: in_set_takeD in_set_dropD)
  with assms(2) SegmentReverse s show ?thesis by (auto simp: Let_def)
qed

lemma fold_reroute_length [simp]: "length (fold (\<lambda>u vs. reroute vs u) us vs) = length vs"
  by (induction us arbitrary: vs) simp_all

lemma fold_reroute_nth_other:
  "i \<notin> fst ` set us \<Longrightarrow> fold (\<lambda>u vs. reroute vs u) us vs ! i = vs ! i"
proof (induction us arbitrary: vs)
  case Nil
  show ?case by simp
next
  case (Cons w us)
  then have "i \<noteq> fst w" "i \<notin> fst ` set us" by auto
  then show ?case using Cons.IH [of "reroute vs w"] by (simp add: reroute_nth_other)
qed

lemma fold_reroute_nth:
  assumes "distinct (map fst us)" and "\<forall>u\<in>set us. fst u < length vs" and "u \<in> set us"
  shows "fold (\<lambda>u vs. reroute vs u) us vs ! fst u = (vs ! fst u)\<lparr>vehicle.visits := snd u\<rparr>"
  using assms
proof (induction us arbitrary: vs)
  case Nil
  then show ?case by simp
next
  case (Cons w us)
  show ?case
  proof (cases "u = w")
    case True
    have "fst w \<notin> fst ` set us" using Cons.prems(1) by auto
    then have "fold (\<lambda>u vs. reroute vs u) us (reroute vs w) ! fst w = reroute vs w ! fst w"
      by (rule fold_reroute_nth_other)
    then show ?thesis using True Cons.prems(2) by (simp add: reroute_def)
  next
    case False
    then have in_us: "u \<in> set us" using Cons.prems(3) by simp
    then have "fst u \<in> fst ` set us" by simp
    moreover have "fst w \<notin> fst ` set us" using Cons.prems(1) by auto
    ultimately have ne: "fst u \<noteq> fst w" by metis
    have "fold (\<lambda>u vs. reroute vs u) us (reroute vs w) ! fst u =
        (reroute vs w ! fst u)\<lparr>vehicle.visits := snd u\<rparr>"
      using Cons.prems(1,2) in_us by (intro Cons.IH) simp_all
    then show ?thesis using ne by (simp add: reroute_nth_other)
  qed
qed


lemma full_score_Inr_cost_of:
  "full_score s = Inr x \<longleftrightarrow>
     (\<forall>v\<in>set (vehicles s). route_cost v \<noteq> None) \<and> x = - sum_list (map cost_of (vehicles s))"
  using full_score_Inr_iff [of s x] by (simp add: cost_of_def [abs_def])

lemma delta_score_exact:
  assumes "legal s m" and "full_score s = Inr a"
    and "\<forall>u\<in>set (moved_routes (vehicles s) m).
           route_cost ((vehicles s ! fst u)\<lparr>vehicle.visits := snd u\<rparr>) \<noteq> None"
  shows "\<exists>s' d. apply_move s m = Inr s' \<and> delta_score s m = Inr d \<and>
           full_score s' = Inr (a + d)"
proof -
  let ?us = "moved_routes (vehicles s) m"
  let ?vs' = "fold (\<lambda>u vs. reroute vs u) ?us (vehicles s)"
  from moved_routes_indices [OF assms(1)] have i:
    "distinct (map fst ?us)" "\<forall>u\<in>set ?us. fst u < length (vehicles s)"
    by simp_all
  from assms(2) have old: "\<forall>v\<in>set (vehicles s). route_cost v \<noteq> None"
    and a: "a = - sum_list (map cost_of (vehicles s))"
    by (simp_all add: full_score_Inr_cost_of)
  from fold_reroute_costs [OF i old assms(3)] obtain d where d:
    "delta_sum (vehicles s) ?us = Inr d" "\<forall>v\<in>set ?vs'. route_cost v \<noteq> None"
    "sum_list (map cost_of ?vs') = sum_list (map cost_of (vehicles s)) + d"
    by blast
  have "apply_move s m = Inr (s\<lparr>vehicles := ?vs'\<rparr>)"
    using assms(1) by (simp add: apply_move_def)
  moreover have "delta_score s m = Inr (- d)"
    using assms(1) d(1) by (simp add: delta_score_def)
  moreover have "full_score (s\<lparr>vehicles := ?vs'\<rparr>) = Inr (a + - d)"
    using d(2,3) a by (simp add: full_score_Inr_cost_of)
  ultimately show ?thesis by blast
qed

lemma route_in_locations_of:
  "v \<in> set (vehicles s) \<Longrightarrow> set (route v) \<subseteq> set (locations_of s)"
  by (auto simp: locations_of_def)

lemma moved_route_defined:
  assumes "legal s m" and "complete_index s" and "u \<in> set (moved_routes (vehicles s) m)"
  shows "route_cost ((vehicles s ! fst u)\<lparr>vehicle.visits := snd u\<rparr>) \<noteq> None"
proof -
  let ?v = "vehicles s ! fst u"
  from moved_routes_indices [OF assms(1)] assms(3) have "fst u < length (vehicles s)"
    by simp
  then have v: "?v \<in> set (vehicles s)" by simp
  have start: "start_location ?v \<in> set (locations_of s)"
    using route_in_locations_of [OF v] by (simp add: route_def)
  have "set (snd u) \<subseteq> (\<Union>v\<in>set (vehicles s). set (vehicle.visits v))"
    using moved_routes_visits [OF assms(1,3)] .
  also have "\<dots> \<subseteq> set (locations_of s)"
    by (auto simp: locations_of_def route_def)
  finally have "set (route (?v\<lparr>vehicle.visits := snd u\<rparr>)) \<subseteq> set (locations_of s)"
    using start by (simp add: route_def)
  moreover have "\<forall>a\<in>set (locations_of s). \<forall>b\<in>set (locations_of s).
      distance_dict a (id_loc b) \<noteq> None"
    using assms(2) by (simp add: complete_index_def)
  ultimately show ?thesis using route_cost_defined by fastforce
qed

lemma complete_index_full_score:
  assumes "complete_index s"
  shows "\<exists>a. full_score s = Inr a"
proof -
  have "route_cost v \<noteq> None" if "v \<in> set (vehicles s)" for v
  proof -
    have "\<forall>a\<in>set (locations_of s). \<forall>b\<in>set (locations_of s).
        distance_dict a (id_loc b) \<noteq> None"
      using assms by (simp add: complete_index_def)
    with route_in_locations_of [OF that] show ?thesis
      using route_cost_defined by fastforce
  qed
  then show ?thesis by (simp add: full_score_Inr_cost_of)
qed

text \<open>
  C4. For every plan s and every legal move m, applying the move succeeds, and the full
  score of the plan after the move is the full score of s plus \<open>delta_score s m\<close>,
  exactly: whenever both full scores are computed, and in particular whenever the
  distance index of s is complete, in which case both scores and the delta are computed.
  \<open>delta_score\<close> is a function of s and m that returns a number only: it changes no
  plan.
\<close>

theorem delta_correctness:
  "legal s m \<longrightarrow>
     (\<exists>s'. apply_move s m = Inr s' \<and>
        (\<forall>a b. full_score s = Inr a \<and> full_score s' = Inr b \<longrightarrow>
           delta_score s m = Inr (b - a)) \<and>
        (complete_index s \<longrightarrow>
           (\<exists>a d. full_score s = Inr a \<and> delta_score s m = Inr d \<and>
              full_score s' = Inr (a + d))))"
proof
  assume legal: "legal s m"
  let ?us = "moved_routes (vehicles s) m"
  let ?vs' = "fold (\<lambda>u vs. reroute vs u) ?us (vehicles s)"
  let ?s' = "s\<lparr>vehicles := ?vs'\<rparr>"
  have app: "apply_move s m = Inr ?s'"
    using legal by (simp add: apply_move_def)
  from moved_routes_indices [OF legal] have i:
    "distinct (map fst ?us)" "\<forall>u\<in>set ?us. fst u < length (vehicles s)"
    by simp_all
  have exact: "delta_score s m = Inr (b - a)"
    if ab: "full_score s = Inr a" "full_score ?s' = Inr b" for a b
  proof -
    have new: "\<forall>v\<in>set ?vs'. route_cost v \<noteq> None"
      using ab(2) by (simp add: full_score_Inr_cost_of)
    have "route_cost ((vehicles s ! fst u)\<lparr>vehicle.visits := snd u\<rparr>) \<noteq> None"
      if u: "u \<in> set ?us" for u
    proof -
      have "?vs' ! fst u = (vehicles s ! fst u)\<lparr>vehicle.visits := snd u\<rparr>"
        using fold_reroute_nth [OF i u] .
      moreover have "?vs' ! fst u \<in> set ?vs'" using i(2) u by simp
      ultimately show ?thesis using new by metis
    qed
    then have "\<forall>u\<in>set ?us.
        route_cost ((vehicles s ! fst u)\<lparr>vehicle.visits := snd u\<rparr>) \<noteq> None"
      by blast
    from delta_score_exact [OF legal ab(1) this] app ab(2) show ?thesis by auto
  qed
  have complete: "\<exists>a d. full_score s = Inr a \<and> delta_score s m = Inr d \<and>
      full_score ?s' = Inr (a + d)" if c: "complete_index s"
  proof -
    from complete_index_full_score [OF c] obtain a where a: "full_score s = Inr a" ..
    have "\<forall>u\<in>set ?us.
        route_cost ((vehicles s ! fst u)\<lparr>vehicle.visits := snd u\<rparr>) \<noteq> None"
      using moved_route_defined [OF legal c] by blast
    from delta_score_exact [OF legal a this] app a show ?thesis by auto
  qed
  show "\<exists>s'. apply_move s m = Inr s' \<and>
        (\<forall>a b. full_score s = Inr a \<and> full_score s' = Inr b \<longrightarrow>
           delta_score s m = Inr (b - a)) \<and>
        (complete_index s \<longrightarrow>
           (\<exists>a d. full_score s = Inr a \<and> delta_score s m = Inr d \<and>
              full_score s' = Inr (a + d)))"
    using app exact complete by blast
qed

theorem delta_correctness_witness:
  "legal scenario_two (Relocate 0 0 1 0) \<and> complete_index scenario_two \<and>
   apply_move scenario_two (Relocate 0 0 1 0) =
     Inr \<lparr>vehicles = [\<lparr>start_location = loc_a, visits = []\<rparr>,
                      \<lparr>start_location = loc_b, visits = [loc_b]\<rparr>],
          visits = [loc_a, loc_b], score = None\<rparr> \<and>
   full_score scenario_two = Inr (- 200) \<and>
   delta_score scenario_two (Relocate 0 0 1 0) = Inr 200 \<and>
   full_score \<lparr>vehicles = [\<lparr>start_location = loc_a, visits = []\<rparr>,
                           \<lparr>start_location = loc_b, visits = [loc_b]\<rparr>],
               visits = [loc_a, loc_b], score = None\<rparr> = Inr 0"
proof -
  have l: "legal scenario_two (Relocate 0 0 1 0)"
    by (simp add: scenario_two_def)
  have c: "complete_index scenario_two"
    by (simp add: complete_index_def locations_of_def route_def scenario_two_def
        loc_a_def loc_b_def)
  have a: "apply_move scenario_two (Relocate 0 0 1 0) =
     Inr \<lparr>vehicles = [\<lparr>start_location = loc_a, visits = []\<rparr>,
                      \<lparr>start_location = loc_b, visits = [loc_b]\<rparr>],
          visits = [loc_a, loc_b], score = None\<rparr>"
    by (simp add: apply_move_def scenario_two_def reroute_def insert_at_def remove_at_def)
  have f: "full_score scenario_two = Inr (- 200)"
    by (simp add: full_score_def scenario_two_def total_distance_def
        getitem_def loc_a_def loc_b_def)
  have g: "full_score \<lparr>vehicles = [\<lparr>start_location = loc_a, visits = []\<rparr>,
                           \<lparr>start_location = loc_b, visits = [loc_b]\<rparr>],
               visits = [loc_a, loc_b], score = None\<rparr> = Inr 0"
    by (simp add: full_score_def total_distance_def
        getitem_def loc_a_def loc_b_def)
  have "delta_score scenario_two (Relocate 0 0 1 0) = Inr (0 - (- 200))"
    using delta_correctness [of scenario_two "Relocate 0 0 1 0"] l a f g by auto
  then show ?thesis using l c a f g by simp
qed

end
